theory Spec2Isabelle
  imports Complex_Main
begin

section \<open>Strings and the library functions the validator calls\<close>

text \<open>
  A Python \<open>str\<close> is modelled as a \<open>string\<close>; each \<open>char\<close> stands for one code
  point in the range U+0000..U+00FF, so \<open>length\<close> is Python's \<open>len\<close>. Code points
  above U+00FF (among them the byte-order mark U+FEFF) are outside the model.
\<close>

definition ord :: "char \<Rightarrow> nat" where
  "ord c = of_char c"

text \<open>
  \<open>str.strip()\<close> removes leading and trailing whitespace. Below U+0100 Python's
  whitespace is U+0009..U+000D, U+001C..U+0020, U+0085 and U+00A0.
\<close>

definition py_isspace :: "char \<Rightarrow> bool" where
  "py_isspace c \<longleftrightarrow>
     (9 \<le> ord c \<and> ord c \<le> 13) \<or> (28 \<le> ord c \<and> ord c \<le> 32) \<or> ord c = 133 \<or> ord c = 160"

definition strip_with :: "(char \<Rightarrow> bool) \<Rightarrow> string \<Rightarrow> string" where
  "strip_with p s = rev (dropWhile p (rev (dropWhile p s)))"

definition strip :: "string \<Rightarrow> string" where
  "strip s = strip_with py_isspace s"

text \<open>\<open>s.strip(chars)\<close>: the characters to remove are given as a string.\<close>

definition strip_chars :: "string \<Rightarrow> string \<Rightarrow> string" where
  "strip_chars chars s = strip_with (\<lambda>c. c \<in> set chars) s"

text \<open>\<open>sub in s\<close> on strings.\<close>

fun contains :: "string \<Rightarrow> string \<Rightarrow> bool" where
  "contains sub [] = (sub = [])"
| "contains sub (c # cs) = (take (length sub) (c # cs) = sub \<or> contains sub cs)"

subsection \<open>Calendar dates\<close>

text \<open>
  \<open>datetime.date\<close>: year, month and day of the proleptic Gregorian calendar. Comparison
  is by (year, month, day); subtraction gives the difference of the ordinals.
\<close>

record date =
  year :: nat
  month :: nat
  day :: nat

definition mk_date :: "nat \<Rightarrow> nat \<Rightarrow> nat \<Rightarrow> date" where
  "mk_date y m d = \<lparr>year = y, month = m, day = d\<rparr>"

definition is_leap :: "nat \<Rightarrow> bool" where
  "is_leap y \<longleftrightarrow> y mod 4 = 0 \<and> (y mod 100 \<noteq> 0 \<or> y mod 400 = 0)"

definition days_in_month :: "nat \<Rightarrow> nat \<Rightarrow> nat" where
  "days_in_month y m =
     (if m = 2 then (if is_leap y then 29 else 28)
      else if m = 4 \<or> m = 6 \<or> m = 9 \<or> m = 11 then 30 else 31)"

definition days_before_year :: "nat \<Rightarrow> int" where
  "days_before_year y =
     (let p = int y - 1 in p * 365 + p div 4 - p div 100 + p div 400)"

definition days_before_month :: "nat \<Rightarrow> nat \<Rightarrow> int" where
  "days_before_month y m = int (\<Sum>k \<leftarrow> [1..<m]. days_in_month y k)"

definition toordinal :: "date \<Rightarrow> int" where
  "toordinal d = days_before_year (year d) + days_before_month (year d) (month d) + int (day d)"

definition date_less :: "date \<Rightarrow> date \<Rightarrow> bool" where
  "date_less a b \<longleftrightarrow>
     year a < year b \<or> (year a = year b \<and>
       (month a < month b \<or> (month a = month b \<and> day a < day b)))"

definition valid_date :: "date \<Rightarrow> bool" where
  "valid_date d \<longleftrightarrow>
     1 \<le> year d \<and> year d \<le> 9999 \<and> 1 \<le> month d \<and> month d \<le> 12 \<and>
     1 \<le> day d \<and> day d \<le> days_in_month (year d) (month d)"

text \<open>The constructor \<open>date(y, m, d)\<close> raises ValueError outside the calendar.\<close>

definition date_of :: "nat \<Rightarrow> nat \<Rightarrow> nat \<Rightarrow> date option" where
  "date_of y m d = (if valid_date (mk_date y m d) then Some (mk_date y m d) else None)"

subsection \<open>\<open>datetime.strptime\<close> for the two formats of \<open>DATE_FORMATS\<close>\<close>

text \<open>
  \<open>strptime\<close> turns the format into a regular expression and requires it to match the
  whole string: \<open>%Y\<close> is four digits, \<open>%m\<close> is \<open>1[0-2]|0[1-9]|[1-9]\<close> and \<open>%d\<close> is
  \<open>3[0-1]|[1-2]\d|0[1-9]|[1-9]| [1-9]\<close>, the alternatives tried in this order. Whenever
  a two-character alternative matches, a digit follows the first character, so a later
  one-character alternative cannot be followed by the separator: taking the first
  alternative that matches decides the same strings as the backtracking matcher.
  A failed match and an impossible calendar date both raise ValueError, here \<open>None\<close>.
\<close>

definition is_digit :: "char \<Rightarrow> bool" where
  "is_digit c \<longleftrightarrow> 48 \<le> ord c \<and> ord c \<le> 57"

definition digit_val :: "char \<Rightarrow> nat" where
  "digit_val c = ord c - 48"

definition in_range :: "char \<Rightarrow> char \<Rightarrow> char \<Rightarrow> bool" where
  "in_range lo hi c \<longleftrightarrow> ord lo \<le> ord c \<and> ord c \<le> ord hi"

definition take_Y :: "string \<Rightarrow> (nat \<times> string) option" where
  "take_Y s =
     (case s of
        a # b # c # d # r \<Rightarrow>
          if is_digit a \<and> is_digit b \<and> is_digit c \<and> is_digit d
          then Some (1000 * digit_val a + 100 * digit_val b + 10 * digit_val c + digit_val d, r)
          else None
      | _ \<Rightarrow> None)"

definition take_m :: "string \<Rightarrow> (nat \<times> string) option" where
  "take_m s =
     (case s of
        [] \<Rightarrow> None
      | a # r \<Rightarrow>
          (case r of
             b # r' \<Rightarrow>
               if a = CHR ''1'' \<and> in_range CHR ''0'' CHR ''2'' b then Some (10 + digit_val b, r')
               else if a = CHR ''0'' \<and> in_range CHR ''1'' CHR ''9'' b then Some (digit_val b, r')
               else if in_range CHR ''1'' CHR ''9'' a then Some (digit_val a, r)
               else None
           | [] \<Rightarrow> if in_range CHR ''1'' CHR ''9'' a then Some (digit_val a, r) else None))"

definition take_d :: "string \<Rightarrow> (nat \<times> string) option" where
  "take_d s =
     (case s of
        [] \<Rightarrow> None
      | a # r \<Rightarrow>
          (case r of
             b # r' \<Rightarrow>
               if a = CHR ''3'' \<and> in_range CHR ''0'' CHR ''1'' b then Some (30 + digit_val b, r')
               else if in_range CHR ''1'' CHR ''2'' a \<and> is_digit b
                 then Some (10 * digit_val a + digit_val b, r')
               else if a = CHR ''0'' \<and> in_range CHR ''1'' CHR ''9'' b then Some (digit_val b, r')
               else if in_range CHR ''1'' CHR ''9'' a then Some (digit_val a, r)
               else if a = CHR '' '' \<and> in_range CHR ''1'' CHR ''9'' b then Some (digit_val b, r')
               else None
           | [] \<Rightarrow> if in_range CHR ''1'' CHR ''9'' a then Some (digit_val a, r) else None))"

definition expect :: "char \<Rightarrow> string \<Rightarrow> string option" where
  "expect c s = (case s of [] \<Rightarrow> None | x # r \<Rightarrow> if x = c then Some r else None)"

datatype date_format = FMT_ISO | FMT_DMY

text \<open>\<open>datetime.strptime(v, fmt).date()\<close> for \<open>"%Y-%m-%d"\<close> and \<open>"%d/%m/%Y"\<close>.\<close>

definition strptime :: "string \<Rightarrow> date_format \<Rightarrow> date option" where
  "strptime v fmt =
     (case fmt of
        FMT_ISO \<Rightarrow>
          (case take_Y v of None \<Rightarrow> None | Some (y, r1) \<Rightarrow>
          (case expect CHR ''-'' r1 of None \<Rightarrow> None | Some r2 \<Rightarrow>
          (case take_m r2 of None \<Rightarrow> None | Some (m, r3) \<Rightarrow>
          (case expect CHR ''-'' r3 of None \<Rightarrow> None | Some r4 \<Rightarrow>
          (case take_d r4 of None \<Rightarrow> None | Some (d, r5) \<Rightarrow>
           if r5 = [] then date_of y m d else None)))))
      | FMT_DMY \<Rightarrow>
          (case take_d v of None \<Rightarrow> None | Some (d, r1) \<Rightarrow>
          (case expect CHR ''/'' r1 of None \<Rightarrow> None | Some r2 \<Rightarrow>
          (case take_m r2 of None \<Rightarrow> None | Some (m, r3) \<Rightarrow>
          (case expect CHR ''/'' r3 of None \<Rightarrow> None | Some r4 \<Rightarrow>
          (case take_Y r4 of None \<Rightarrow> None | Some (y, r5) \<Rightarrow>
           if r5 = [] then date_of y m d else None))))))"

section \<open>Specification constants\<close>

definition SENTINEL_DATES :: "string set" where
  "SENTINEL_DATES = {''2999-12-31'', ''31/12/2999''}"

definition DATE_FORMATS :: "date_format list" where
  "DATE_FORMATS = [FMT_ISO, FMT_DMY]"

section \<open>Helpers\<close>

text \<open>
  \<open>parse_date\<close> returns the pair \<open>(date_obj, is_sentinel)\<close>; \<open>None\<close> of Python is
  \<open>None\<close> here. The loop over \<open>DATE_FORMATS\<close> returns at the first format that parses.
\<close>

fun try_formats :: "string \<Rightarrow> date_format list \<Rightarrow> date option \<times> bool" where
  "try_formats v [] = (None, False)"
| "try_formats v (fmt # fmts) =
     (case strptime v fmt of Some dt \<Rightarrow> (Some dt, False) | None \<Rightarrow> try_formats v fmts)"

definition parse_date :: "string \<Rightarrow> date option \<times> bool" where
  "parse_date val =
     (let v = strip val in
      if v = [] then (None, False)
      else if v \<in> SENTINEL_DATES then (None, True)
      else try_formats v DATE_FORMATS)"

subsection \<open>Regular expressions of the field table\<close>

text \<open>
  The patterns of \<open>FIELD_SPECS\<close> all have the shape \<open>^...$\<close> and use literals,
  character classes with a repetition count, sequence and alternative. \<open>re.match\<close>
  succeeds when some way of matching the body ends where \<open>$\<close> matches: at the end of
  the string or just before a final newline. Below U+0100 \<open>\d\<close> is the ten ASCII
  digits and \<open>\s\<close> is the whitespace of \<open>str.strip\<close>.
\<close>

datatype cls = Rng char char | Dig | Spc

fun cls_has :: "cls \<Rightarrow> char \<Rightarrow> bool" where
  "cls_has (Rng lo hi) c = in_range lo hi c"
| "cls_has Dig c = is_digit c"
| "cls_has Spc c = py_isspace c"

datatype rx = Lit string | Rep "cls list" nat "nat option" | Seq rx rx | Alt rx rx

text \<open>All remainders after between \<open>lo\<close> and \<open>hi\<close> characters satisfying \<open>p\<close>.\<close>

fun rep_rems :: "(char \<Rightarrow> bool) \<Rightarrow> nat \<Rightarrow> nat option \<Rightarrow> string \<Rightarrow> string list" where
  "rep_rems p lo hi [] = (if lo = 0 then [[]] else [])"
| "rep_rems p lo hi (c # r) =
     (if lo = 0 then [c # r] else []) @
     (if p c \<and> hi \<noteq> Some 0 then rep_rems p (lo - 1) (map_option (\<lambda>h. h - 1) hi) r else [])"

fun rx_rems :: "rx \<Rightarrow> string \<Rightarrow> string list" where
  "rx_rems (Lit l) s = (if take (length l) s = l then [drop (length l) s] else [])"
| "rx_rems (Rep cs lo hi) s = rep_rems (\<lambda>c. \<exists>k \<in> set cs. cls_has k c) lo hi s"
| "rx_rems (Seq a b) s = concat (map (rx_rems b) (rx_rems a s))"
| "rx_rems (Alt a b) s = rx_rems a s @ rx_rems b s"

definition re_match :: "rx \<Rightarrow> string \<Rightarrow> bool" where
  "re_match body v \<longleftrightarrow> (\<exists>rest \<in> set (rx_rems body v). rest = [] \<or> rest = [CHR 0x0A])"

definition one :: "cls list \<Rightarrow> rx" where
  "one cs = Rep cs 1 (Some 1)"

definition exactly :: "nat \<Rightarrow> cls list \<Rightarrow> rx" where
  "exactly n cs = Rep cs n (Some n)"

fun seqs :: "rx list \<Rightarrow> rx" where
  "seqs [] = Lit []"
| "seqs [r] = r"
| "seqs (r # rs) = Seq r (seqs rs)"

fun alts :: "rx \<Rightarrow> rx list \<Rightarrow> rx" where
  "alts r [] = r"
| "alts r (q # qs) = Alt r (alts q qs)"

definition upper :: cls where "upper = Rng CHR ''A'' CHR ''Z''"
definition digit09 :: cls where "digit09 = Rng CHR ''0'' CHR ''9''"

text \<open>\<open>[A-Z]{1,2}\d[A-Z\d]?\s*\d[A-Z]{2}\<close>\<close>

definition UK_POSTCODE_RE :: rx where
  "UK_POSTCODE_RE =
     seqs [Rep [upper] 1 (Some 2), one [Dig], Rep [upper, Dig] 0 (Some 1), Rep [Spc] 0 None,
           one [Dig], exactly 2 [upper]]"

text \<open>\<open>BFPO\s*\d{1,4}\<close>\<close>

definition BFPO_POSTCODE_RE :: rx where
  "BFPO_POSTCODE_RE = seqs [Lit ''BFPO'', Rep [Spc] 0 None, Rep [Dig] 1 (Some 4)]"

text \<open>\<open>[AC-FHKNPRTV-Y]\d{1,2}[0-9A-Z]?\s*[0-9AC-FHKNPRTV-Y]{4}\<close>\<close>

definition irish_letters :: "cls list" where
  "irish_letters =
     [Rng CHR ''A'' CHR ''A'', Rng CHR ''C'' CHR ''F'', Rng CHR ''H'' CHR ''H'',
      Rng CHR ''K'' CHR ''K'', Rng CHR ''N'' CHR ''N'', Rng CHR ''P'' CHR ''P'',
      Rng CHR ''R'' CHR ''R'', Rng CHR ''T'' CHR ''T'', Rng CHR ''V'' CHR ''Y'']"

definition IRISH_POSTCODE_RE :: rx where
  "IRISH_POSTCODE_RE =
     seqs [one irish_letters, Rep [Dig] 1 (Some 2), Rep [digit09, upper] 0 (Some 1),
           Rep [Spc] 0 None, exactly 4 (digit09 # irish_letters)]"

definition CENTRE_POSTCODE_RE :: rx where
  "CENTRE_POSTCODE_RE = alts UK_POSTCODE_RE [BFPO_POSTCODE_RE, IRISH_POSTCODE_RE]"

text \<open>\<open>^(January|...|December) \d{4}$\<close>\<close>

definition EXAM_SERIES_RE :: rx where
  "EXAM_SERIES_RE =
     seqs [alts (Lit ''January'')
             [Lit ''February'', Lit ''March'', Lit ''April'', Lit ''May'', Lit ''June'',
              Lit ''July'', Lit ''August'', Lit ''September'', Lit ''October'',
              Lit ''November'', Lit ''December''],
           Lit '' '', exactly 4 [Dig]]"

section \<open>The field table\<close>

definition EXPECTED_COLUMNS :: "string list" where
  "EXPECTED_COLUMNS =
    [''RecordType'', ''UniqueCandidateIdentifier'', ''UniqueLearnerNumber'',
     ''UniquePupilNumber'', ''CandidateIdentifierOther'', ''FirstName'', ''MiddleNames'',
     ''Surname'', ''Sex'', ''DOB'', ''NCN'', ''CentreURN'', ''LAESTAB'',
     ''CentreIdentifierOther'', ''UKPRN'', ''CentreName'', ''CentreAddress1'',
     ''CentreAddress2'', ''CentreAddress3'', ''CentreAddress4'', ''CentrePostcode'',
     ''CentreType'', ''QualificationNumberType'', ''QualificationNumber'',
     ''SpecificationCode'', ''SpecificationTitle'', ''QualificationType'', ''ExamSeries'',
     ''RegistrationDate'', ''FirstEntryDate'', ''AwardDate'', ''QualificationGrade'',
     ''PrivateCandidate'', ''PartialAbsence'']"

definition QUALIFICATION_TYPE_VALUES :: "string set" where
  "QUALIFICATION_TYPE_VALUES =
     {''Alternative Academic Qualification'', ''Apprenticeship Assessment Qualification'',
      ''Digital Functional Skills Qualification'', ''End-Point Assessment'',
      ''English For Speakers of Other Languages'', ''Essential Digital Skills'',
      ''Essential Skills (Northern Ireland)'', ''Functional Skills'', ''Key Skills'',
      ''Occupational Qualification'', ''Other General Qualification'',
      ''Other Vocational Qualification'', ''Other Life Skills Qualification'',
      ''Performing Arts Graded Examination'', ''QCF'',
      ''Technical Occupation Qualification'', ''Technical Qualification'',
      ''Vocationally-Related Qualification''}"

text \<open>\<open>str(n)\<close> for a non-negative integer: its decimal digits.\<close>

fun str_nat :: "nat \<Rightarrow> string" where
  "str_nat n =
     (if n < 10 then [char_of (48 + n)] else str_nat (n div 10) @ [char_of (48 + n mod 10)])"

declare str_nat.simps [simp del]

text \<open>\<open>{str(i) for i in range(1, 14)}\<close>\<close>

definition CENTRE_TYPE_VALUES :: "string set" where
  "CENTRE_TYPE_VALUES = set (map str_nat [1..<14])"

record FieldSpec =
  name :: string
  mandatory :: bool
  allow_minus2 :: bool
  lengthF :: "nat option"
  min_length :: "nat option"
  max_length :: "nat option"
  allowed_values :: "string set option"
  pattern :: "rx option"
  typeF :: "string option"

text \<open>The defaults of the dataclass.\<close>

definition spec0 :: "string \<Rightarrow> FieldSpec" where
  "spec0 n =
     \<lparr>name = n, mandatory = False, allow_minus2 = False, lengthF = None, min_length = None,
      max_length = None, allowed_values = None, pattern = None, typeF = None\<rparr>"

definition FIELD_SPECS_items :: "(string \<times> FieldSpec) list" where
  "FIELD_SPECS_items =
     [(''RecordType'', (spec0 ''RecordType'') \<lparr>mandatory := True, allowed_values := Some {''Entry'', ''Result'', ''Amendment'', ''Deletion''}\<rparr>),
      (''UniqueCandidateIdentifier'', (spec0 ''UniqueCandidateIdentifier'') \<lparr>allow_minus2 := True, lengthF := Some 13, pattern := Some (exactly 13 [upper, digit09])\<rparr>),
      (''UniqueLearnerNumber'', (spec0 ''UniqueLearnerNumber'') \<lparr>allow_minus2 := True, lengthF := Some 10, pattern := Some (exactly 10 [Dig])\<rparr>),
      (''UniquePupilNumber'', (spec0 ''UniquePupilNumber'') \<lparr>allow_minus2 := True, lengthF := Some 13, pattern := Some (exactly 13 [upper, digit09])\<rparr>),
      (''CandidateIdentifierOther'', (spec0 ''CandidateIdentifierOther'') \<lparr>allow_minus2 := True, min_length := Some 1, max_length := Some 20\<rparr>),
      (''FirstName'', (spec0 ''FirstName'') \<lparr>mandatory := True, min_length := Some 1, max_length := Some 150\<rparr>),
      (''MiddleNames'', (spec0 ''MiddleNames'') \<lparr>min_length := Some 1, max_length := Some 150\<rparr>),
      (''Surname'', (spec0 ''Surname'') \<lparr>mandatory := True, min_length := Some 1, max_length := Some 150\<rparr>),
      (''Sex'', (spec0 ''Sex'') \<lparr>mandatory := True, allow_minus2 := True, allowed_values := Some {''M'', ''F''}\<rparr>),
      (''DOB'', (spec0 ''DOB'') \<lparr>typeF := Some ''date''\<rparr>),
      (''NCN'', (spec0 ''NCN'') \<lparr>mandatory := True, allow_minus2 := True, lengthF := Some 5, pattern := Some (exactly 5 [Dig])\<rparr>),
      (''CentreURN'', (spec0 ''CentreURN'') \<lparr>mandatory := True, allow_minus2 := True, lengthF := Some 6, pattern := Some (exactly 6 [Dig])\<rparr>),
      (''LAESTAB'', (spec0 ''LAESTAB'') \<lparr>mandatory := True, allow_minus2 := True, lengthF := Some 8\<rparr>),
      (''CentreIdentifierOther'', (spec0 ''CentreIdentifierOther'') \<lparr>mandatory := True, allow_minus2 := True, min_length := Some 1, max_length := Some 15\<rparr>),
      (''UKPRN'', (spec0 ''UKPRN'') \<lparr>mandatory := True, allow_minus2 := True, lengthF := Some 8, pattern := Some (exactly 8 [Dig])\<rparr>),
      (''CentreName'', (spec0 ''CentreName'') \<lparr>min_length := Some 1, max_length := Some 150\<rparr>),
      (''CentreAddress1'', (spec0 ''CentreAddress1'') \<lparr>min_length := Some 1, max_length := Some 150\<rparr>),
      (''CentreAddress2'', (spec0 ''CentreAddress2'') \<lparr>min_length := Some 1, max_length := Some 150\<rparr>),
      (''CentreAddress3'', (spec0 ''CentreAddress3'') \<lparr>min_length := Some 1, max_length := Some 150\<rparr>),
      (''CentreAddress4'', (spec0 ''CentreAddress4'') \<lparr>min_length := Some 1, max_length := Some 150\<rparr>),
      (''CentrePostcode'', (spec0 ''CentrePostcode'') \<lparr>mandatory := True, allow_minus2 := True, pattern := Some CENTRE_POSTCODE_RE\<rparr>),
      (''CentreType'', (spec0 ''CentreType'') \<lparr>mandatory := True, allow_minus2 := True, allowed_values := Some CENTRE_TYPE_VALUES\<rparr>),
      (''QualificationNumberType'', (spec0 ''QualificationNumberType'') \<lparr>mandatory := True, allowed_values := Some {''QAN'', ''Other''}\<rparr>),
      (''QualificationNumber'', (spec0 ''QualificationNumber'') \<lparr>mandatory := True, min_length := Some 1, max_length := Some 10\<rparr>),
      (''SpecificationCode'', (spec0 ''SpecificationCode'') \<lparr>mandatory := True, allow_minus2 := True, min_length := Some 1, max_length := Some 20\<rparr>),
      (''SpecificationTitle'', (spec0 ''SpecificationTitle'') \<lparr>mandatory := True, min_length := Some 1, max_length := Some 250\<rparr>),
      (''QualificationType'', (spec0 ''QualificationType'') \<lparr>mandatory := True, allowed_values := Some QUALIFICATION_TYPE_VALUES\<rparr>),
      (''ExamSeries'', (spec0 ''ExamSeries'') \<lparr>mandatory := True, allow_minus2 := True, pattern := Some EXAM_SERIES_RE\<rparr>),
      (''RegistrationDate'', (spec0 ''RegistrationDate'') \<lparr>mandatory := True, typeF := Some ''date''\<rparr>),
      (''FirstEntryDate'', (spec0 ''FirstEntryDate'') \<lparr>typeF := Some ''date''\<rparr>),
      (''AwardDate'', (spec0 ''AwardDate'') \<lparr>typeF := Some ''date''\<rparr>),
      (''QualificationGrade'', (spec0 ''QualificationGrade'') \<lparr>allow_minus2 := True, min_length := Some 1, max_length := Some 20\<rparr>),
      (''PrivateCandidate'', (spec0 ''PrivateCandidate'') \<lparr>mandatory := True, allow_minus2 := True, allowed_values := Some {''0'', ''1''}\<rparr>),
      (''PartialAbsence'', (spec0 ''PartialAbsence'') \<lparr>mandatory := True, allow_minus2 := True, allowed_values := Some {''0'', ''1''}\<rparr>)]"

text \<open>\<open>FIELD_SPECS.get(field)\<close>\<close>

definition FIELD_SPECS :: "string \<Rightarrow> FieldSpec option" where
  "FIELD_SPECS = map_of FIELD_SPECS_items"

definition EXCLUSION_MINUS2_FIELDS :: "string set" where
  "EXCLUSION_MINUS2_FIELDS =
     {''UKPRN'', ''UniqueCandidateIdentifier'', ''UniqueLearnerNumber'',
      ''UniquePupilNumber'', ''NCN'', ''CentreURN'', ''LAESTAB'', ''SpecificationCode'',
      ''ExamSeries'', ''QualificationGrade'', ''PrivateCandidate'', ''PartialAbsence''}"

section \<open>Validation errors\<close>

text \<open>
  The message is an f-string of the source; the model keeps which template it is and the
  values interpolated into it, which determine the text.
\<close>

datatype message =
    MSG_mandatory_blank
  | MSG_invalid_date_format string
  | MSG_before_1900 string
  | MSG_age_range string
  | MSG_not_allowed string "string set"
  | MSG_no_match string rx
  | MSG_exact_length string nat
  | MSG_at_least string nat
  | MSG_at_most string nat
  | MSG_identifier_group
  | MSG_mandatory_for string string
  | MSG_entry_grade
  | MSG_entry_date string
  | MSG_sentinel_entry_only string
  | MSG_future string
  | MSG_award_before_first_entry
  | MSG_award_before_registration
  | MSG_result_grade
  | MSG_file_empty
  | MSG_header_mismatch "string list" "string list"
  | MSG_column_count nat nat
  | MSG_duplicate_row

record ValidationError =
  row_number :: nat
  field :: string
  error_code :: string
  message :: message
  err_value :: string

definition mk_error :: "nat \<Rightarrow> string \<Rightarrow> string \<Rightarrow> message \<Rightarrow> string \<Rightarrow> ValidationError" where
  "mk_error n f c m v = \<lparr>row_number = n, field = f, error_code = c, message = m, err_value = v\<rparr>"

section \<open>Field rules\<close>

definition is_permitted_exclusion :: "string \<Rightarrow> string \<Rightarrow> string \<Rightarrow> bool" where
  "is_permitted_exclusion fld val code =
     (let v = strip val in
      if v = ''-2'' \<and> fld \<in> EXCLUSION_MINUS2_FIELDS then True
      else if fld = ''QualificationNumber'' \<and> contains ''/x'' v then True
      else if fld = ''MiddleNames'' \<and> v = [] then True
      else if fld = ''Sex'' \<and> v = [] then True
      else False)"

definition conditional_mandatory :: "string set" where
  "conditional_mandatory = {''FirstEntryDate'', ''AwardDate'', ''QualificationGrade''}"

text \<open>
  \<open>age = (today - dt).days / 365.25\<close> is a float division in the source. The model
  divides exactly: the exact quotient is a multiple of 1/1461, so it is 5 or 80 exactly or
  at least 1/1461 away from them, far more than the rounding of a double, and the two
  comparisons \<open>age < 5\<close> and \<open>age > 80\<close> come out the same.
\<close>

definition age_years :: "date \<Rightarrow> date \<Rightarrow> real" where
  "age_years today dt = real_of_int (toordinal today - toordinal dt) / 365.25"

text \<open>\<open>date.today()\<close> is the parameter \<open>today\<close>.\<close>

text \<open>
  \<open>validate_field\<close> is given in three pieces: the block under \<open>if spec.type == "date"\<close>
  (\<open>date_rules\<close>), the five independent checks after it (\<open>value_rules\<close>), and the
  function itself with its early returns.
\<close>

definition date_rules :: "date \<Rightarrow> string \<Rightarrow> string \<Rightarrow> (string \<times> message) list" where
  "date_rules today fld v =
     (case parse_date v of (dt, is_sentinel) \<Rightarrow>
        if dt = None \<and> \<not> is_sentinel then [(''DATE_FORMAT'', MSG_invalid_date_format v)]
        else (case dt of
                None \<Rightarrow> []
              | Some d \<Rightarrow>
                  (if date_less d (mk_date 1900 1 1)
                     then [(''DATE_RANGE'', MSG_before_1900 v)] else []) @
                  (if fld = ''DOB'' \<and> (age_years today d < 5 \<or> age_years today d > 80)
                     then [(''DATE_RANGE'', MSG_age_range v)] else [])))"

definition value_rules :: "FieldSpec \<Rightarrow> string \<Rightarrow> (string \<times> message) list" where
  "value_rules spec v =
     (case allowed_values spec of
        None \<Rightarrow> []
      | Some vals \<Rightarrow> if v \<notin> vals then [(''VALUE'', MSG_not_allowed v vals)] else []) @
     (case pattern spec of
        None \<Rightarrow> []
      | Some pat \<Rightarrow> if \<not> re_match pat v then [(''PATTERN'', MSG_no_match v pat)] else []) @
     (case lengthF spec of
        None \<Rightarrow> []
      | Some n \<Rightarrow> if length v \<noteq> n then [(''LENGTH'', MSG_exact_length v n)] else []) @
     (case min_length spec of
        None \<Rightarrow> []
      | Some n \<Rightarrow> if length v < n then [(''MIN_LENGTH'', MSG_at_least v n)] else []) @
     (case max_length spec of
        None \<Rightarrow> []
      | Some n \<Rightarrow> if length v > n then [(''MAX_LENGTH'', MSG_at_most v n)] else [])"

definition validate_field :: "date \<Rightarrow> string \<Rightarrow> string \<Rightarrow> string \<Rightarrow> (string \<times> message) list" where
  "validate_field today fld val record_type =
     (let v = strip val; is_blank = (v = []) in
      case FIELD_SPECS fld of
        None \<Rightarrow> []
      | Some spec \<Rightarrow>
          if mandatory spec \<and> fld \<notin> conditional_mandatory \<and> is_blank
            then [(''MISSING'', MSG_mandatory_blank)]
          else if is_blank then []
          else if v = ''-2'' \<and> allow_minus2 spec then []
          else if typeF spec = Some ''date'' then date_rules today fld v
          else value_rules spec v)"

section \<open>Record rules\<close>

text \<open>A row is a dictionary from column names to cells; \<open>row.get(f) or ""\<close> is \<open>get_str\<close>.\<close>

definition get_str :: "(string \<Rightarrow> string option) \<Rightarrow> string \<Rightarrow> string" where
  "get_str row f = (case row f of None \<Rightarrow> [] | Some s \<Rightarrow> s)"

definition id_fields :: "string list" where
  "id_fields =
     [''UniqueCandidateIdentifier'', ''UniqueLearnerNumber'', ''UniquePupilNumber'',
      ''CandidateIdentifierOther'']"

text \<open>
  \<open>validate_record_level\<close> appends the errors of four blocks in turn; each block is a
  definition of its own, in the order of the source.
\<close>

text \<open>At least one learner identifier.\<close>

definition group_rule :: "(string \<Rightarrow> string option) \<Rightarrow> nat \<Rightarrow> ValidationError list" where
  "group_rule row row_num =
     (if (\<forall>f \<in> set id_fields. strip (get_str row f) = [])
        then [mk_error row_num ''LearnerIdentifierGroup'' ''GROUP_RULE'' MSG_identifier_group []]
        else [])"

text \<open>Conditional mandatory fields of Result and Amendment.\<close>

definition mandatory_rule ::
  "(string \<Rightarrow> string option) \<Rightarrow> nat \<Rightarrow> string \<Rightarrow> ValidationError list" where
  "mandatory_rule row row_num record_type =
     (if record_type \<in> {''Result'', ''Amendment''}
        then concat (map (\<lambda>fname.
               if strip (get_str row fname) = []
                 then [mk_error row_num fname ''MISSING'' (MSG_mandatory_for fname record_type)
                         (get_str row fname)]
                 else [])
             [''FirstEntryDate'', ''AwardDate'', ''QualificationGrade''])
        else [])"

text \<open>Entry-specific behaviour.\<close>

definition entry_rule ::
  "(string \<Rightarrow> string option) \<Rightarrow> nat \<Rightarrow> string \<Rightarrow> ValidationError list" where
  "entry_rule row row_num record_type =
     (if record_type = ''Entry''
        then (let qg = strip (get_str row ''QualificationGrade'') in
              if qg \<noteq> ''-2''
                then [mk_error row_num ''QualificationGrade'' ''ENTRY_RULE'' MSG_entry_grade qg]
                else []) @
             concat (map (\<lambda>fname.
               let val = strip (get_str row fname) in
               if val \<notin> SENTINEL_DATES
                 then [mk_error row_num fname ''ENTRY_RULE'' (MSG_entry_date fname) val]
                 else [])
             [''FirstEntryDate'', ''AwardDate''])
        else [])"

text \<open>
  Result and Amendment date rules. A date object is always true in a condition, so
  \<open>if fe_dt and ...\<close> asks whether the date parsed.
\<close>

definition result_rule ::
  "date \<Rightarrow> (string \<Rightarrow> string option) \<Rightarrow> nat \<Rightarrow> string \<Rightarrow> ValidationError list" where
  "result_rule today row row_num record_type =
     (if record_type \<in> {''Result'', ''Amendment''}
        then (let reg_str = strip (get_str row ''RegistrationDate'');
                  fe_str = strip (get_str row ''FirstEntryDate'');
                  aw_str = strip (get_str row ''AwardDate'');
                  reg_dt = fst (parse_date reg_str);
                  fe_dt = fst (parse_date fe_str); fe_sent = snd (parse_date fe_str);
                  aw_dt = fst (parse_date aw_str); aw_sent = snd (parse_date aw_str);
                  qg = strip (get_str row ''QualificationGrade'')
              in
              (if fe_sent
                 then [mk_error row_num ''FirstEntryDate'' ''SENTINEL_NOT_ALLOWED''
                         (MSG_sentinel_entry_only ''FirstEntryDate'') fe_str]
                 else []) @
              (if aw_sent
                 then [mk_error row_num ''AwardDate'' ''SENTINEL_NOT_ALLOWED''
                         (MSG_sentinel_entry_only ''AwardDate'') aw_str]
                 else []) @
              (case fe_dt of
                 Some fe \<Rightarrow>
                   if date_less today fe
                     then [mk_error row_num ''FirstEntryDate'' ''DATE_FUTURE''
                             (MSG_future ''FirstEntryDate'') fe_str]
                     else []
               | None \<Rightarrow> []) @
              (case aw_dt of
                 Some aw \<Rightarrow>
                   if date_less today aw
                     then [mk_error row_num ''AwardDate'' ''DATE_FUTURE''
                             (MSG_future ''AwardDate'') aw_str]
                     else []
               | None \<Rightarrow> []) @
              (case (aw_dt, fe_dt) of
                 (Some aw, Some fe) \<Rightarrow>
                   if date_less aw fe
                     then [mk_error row_num ''AwardDate'' ''DATE_ORDER''
                             MSG_award_before_first_entry aw_str]
                     else []
               | _ \<Rightarrow> []) @
              (case (aw_dt, reg_dt) of
                 (Some aw, Some reg) \<Rightarrow>
                   if date_less aw reg
                     then [mk_error row_num ''AwardDate'' ''DATE_ORDER''
                             MSG_award_before_registration aw_str]
                     else []
               | _ \<Rightarrow> []) @
              (if qg = ''-2''
                 then [mk_error row_num ''QualificationGrade'' ''RESULT_RULE'' MSG_result_grade qg]
                 else []))
        else [])"

definition validate_record_level ::
  "date \<Rightarrow> (string \<Rightarrow> string option) \<Rightarrow> nat \<Rightarrow> ValidationError list" where
  "validate_record_level today row row_num =
     (let record_type = strip (get_str row ''RecordType'') in
      group_rule row row_num @
      mandatory_rule row row_num record_type @
      entry_rule row row_num record_type @
      result_rule today row row_num record_type)"

section \<open>The CSV reader\<close>















section \<open>CSV validation entry points\<close>

record loop_state =
  errors :: "ValidationError list"
  seen_rows :: "string list set"
  row_idx :: nat

definition n_columns :: nat where
  "n_columns = length EXPECTED_COLUMNS"

text \<open>Padding a short row with empty cells, cutting a long one.\<close>

definition fit_row :: "string list \<Rightarrow> string list" where
  "fit_row row =
     (if length row < n_columns then row @ replicate (n_columns - length row) []
      else if length row > n_columns then take n_columns row
      else row)"

definition field_errors ::
  "date \<Rightarrow> nat \<Rightarrow> (string \<Rightarrow> string option) \<Rightarrow> string \<Rightarrow> string \<Rightarrow> ValidationError list" where
  "field_errors today idx row_dict record_type field_name =
     (let val = get_str row_dict field_name in
      map (\<lambda>(code, msg). mk_error idx field_name code msg val)
        (filter (\<lambda>(code, msg). \<not> is_permitted_exclusion field_name val code)
           (validate_field today field_name val record_type)))"

text \<open>One turn of \<open>for row in reader\<close>.\<close>

definition loop_body :: "date \<Rightarrow> loop_state \<Rightarrow> string list \<Rightarrow> loop_state" where
  "loop_body today st row0 =
     (let idx = row_idx st + 1 in
      if \<not> (\<exists>cell \<in> set row0. strip cell \<noteq> []) then st\<lparr>row_idx := idx\<rparr>
      else
        (let count_errs =
               (if length row0 \<noteq> n_columns
                  then [mk_error idx ''*ROW*'' ''COLUMN_COUNT''
                          (MSG_column_count n_columns (length row0)) []]
                  else []);
             row = fit_row row0;
             dup_errs =
               (if row \<in> seen_rows st
                  then [mk_error idx ''*ROW*'' ''DUPLICATE_ROW'' MSG_duplicate_row []]
                  else []);
             seen = (if row \<in> seen_rows st then seen_rows st else insert row (seen_rows st));
             row_dict = map_of (zip EXPECTED_COLUMNS row);
             record_type = strip (get_str row_dict ''RecordType'')
         in \<lparr>errors = errors st @ count_errs @ dup_errs @
                concat (map (field_errors today idx row_dict record_type) EXPECTED_COLUMNS) @
                validate_record_level today row_dict idx,
              seen_rows = seen,
              row_idx = idx\<rparr>))"

text \<open>
  Each header cell is stripped of byte-order marks and spaces, then of whitespace. The
  byte-order mark is not a code point of the model, so the first step removes spaces.
\<close>

definition normalize_header :: "string list \<Rightarrow> string list" where
  "normalize_header header = map (\<lambda>h. strip (strip_chars '' '' h)) header"

definition header_errors :: "string list \<Rightarrow> ValidationError list" where
  "header_errors header =
     (if header \<noteq> EXPECTED_COLUMNS
        then [mk_error 1 ''*HEADER*'' ''HEADER_MISMATCH''
                (MSG_header_mismatch EXPECTED_COLUMNS header) []]
        else [])"

text \<open>\<open>validate_csv_stream\<close> on the records the reader yields.\<close>

definition validate_csv_stream :: "date \<Rightarrow> string list list \<Rightarrow> ValidationError list" where
  "validate_csv_stream today records =
     (case records of
        [] \<Rightarrow> [mk_error 1 ''*FILE*'' ''EMPTY'' MSG_file_empty []]
      | header # rows \<Rightarrow>
          errors (foldl (loop_body today)
                    \<lparr>errors = header_errors (normalize_header header), seen_rows = {}, row_idx = 1\<rparr>
                    rows))"


section \<open>The output, row by row\<close>

text \<open>
  The definitions of this section are not functions of the source: they name parts of
  one turn of the loop, so that the theorems can speak of the errors of one row.
\<close>

text \<open>The test \<open>not any(cell.strip() for cell in row)\<close>.\<close>

definition is_blank_row :: "string list \<Rightarrow> bool" where
  "is_blank_row row \<longleftrightarrow> \<not> (\<exists>cell \<in> set row. strip cell \<noteq> [])"

text \<open>The dictionary built from a data row: \<open>dict(zip(EXPECTED_COLUMNS, row))\<close> after fitting.\<close>

definition row_dict_of :: "string list \<Rightarrow> (string \<Rightarrow> string option)" where
  "row_dict_of row = map_of (zip EXPECTED_COLUMNS (fit_row row))"

text \<open>The cell of a column in a data row, trimmed.\<close>

definition cell :: "string list \<Rightarrow> string \<Rightarrow> string" where
  "cell row column = strip (get_str (row_dict_of row) column)"

text \<open>The errors about the shape of a row: column count and duplication.\<close>

definition structural_errors :: "nat \<Rightarrow> string list set \<Rightarrow> string list \<Rightarrow> ValidationError list" where
  "structural_errors idx seen row =
     (if length row \<noteq> n_columns
        then [mk_error idx ''*ROW*'' ''COLUMN_COUNT'' (MSG_column_count n_columns (length row)) []]
        else []) @
     (if fit_row row \<in> seen
        then [mk_error idx ''*ROW*'' ''DUPLICATE_ROW'' MSG_duplicate_row []]
        else [])"

text \<open>The errors about the content of a row: field rules, then record rules.\<close>

definition content_errors :: "date \<Rightarrow> nat \<Rightarrow> string list \<Rightarrow> ValidationError list" where
  "content_errors today idx row =
     concat (map (field_errors today idx (row_dict_of row) (cell row ''RecordType''))
               EXPECTED_COLUMNS) @
     validate_record_level today (row_dict_of row) idx"

text \<open>The errors of the data rows, given the row number and the rows seen before them.\<close>

fun rows_errors :: "date \<Rightarrow> nat \<Rightarrow> string list set \<Rightarrow> string list list \<Rightarrow> ValidationError list" where
  "rows_errors today idx seen [] = []"
| "rows_errors today idx seen (row # rows) =
     (if is_blank_row row then rows_errors today (idx + 1) seen rows
      else structural_errors (idx + 1) seen row @ content_errors today (idx + 1) row @
           rows_errors today (idx + 1) (insert (fit_row row) seen) rows)"

text \<open>The rows in the duplicate-detection set after some data rows.\<close>

fun seen_after :: "string list set \<Rightarrow> string list list \<Rightarrow> string list set" where
  "seen_after seen [] = seen"
| "seen_after seen (row # rows) =
     seen_after (if is_blank_row row then seen else insert (fit_row row) seen) rows"

text \<open>The errors of the output that carry a given row number.\<close>

definition errors_at :: "nat \<Rightarrow> ValidationError list \<Rightarrow> ValidationError list" where
  "errors_at n errs = filter (\<lambda>e. row_number e = n) errs"


section \<open>Facts about trimming, the field rules and the record rules\<close>

lemma strip_with_fixed:
  assumes "w = [] \<or> (\<not> p (hd w) \<and> \<not> p (last w))"
  shows "strip_with p w = w"
proof (cases "w = []")
  case True
  then show ?thesis by (simp add: strip_with_def)
next
  case False
  with assms have h: "\<not> p (hd w)" and l: "\<not> p (last w)" by auto
  from False h have a: "dropWhile p w = w"
    by (simp add: dropWhile_eq_self_iff)
  from False l have "dropWhile p (rev w) = rev w"
    by (simp add: dropWhile_eq_self_iff hd_rev)
  with a show ?thesis by (simp add: strip_with_def)
qed

lemma strip_with_idem: "strip_with p (strip_with p s) = strip_with p s"
proof -
  define u where "u = dropWhile p s"
  define w where "w = rev (dropWhile p (rev u))"
  have w: "strip_with p s = w" by (simp add: strip_with_def u_def w_def)
  have split: "u = w @ rev (takeWhile p (rev u))"
    unfolding w_def by (metis rev_append rev_rev_ident takeWhile_dropWhile_id)
  have "w = [] \<or> (\<not> p (hd w) \<and> \<not> p (last w))"
  proof (cases "w = []")
    case True then show ?thesis by simp
  next
    case False
    then have "u \<noteq> []" using split by auto
    then have "\<not> p (hd u)" unfolding u_def by (metis hd_dropWhile)
    moreover have "hd u = hd w" using split False by (metis hd_append2)
    moreover have "\<not> p (last w)"
    proof -
      have "dropWhile p (rev u) \<noteq> []" using False by (simp add: w_def)
      then have "\<not> p (hd (dropWhile p (rev u)))" by (metis hd_dropWhile)
      then show ?thesis using False by (simp add: w_def last_rev)
    qed
    ultimately show ?thesis by simp
  qed
  then show ?thesis unfolding w by (rule strip_with_fixed)
qed

lemma strip_idem: "strip (strip s) = strip s"
  by (simp add: strip_def strip_with_idem)

lemma parse_date_strip: "parse_date (strip s) = parse_date s"
  by (simp add: parse_date_def strip_idem)

lemma minus2_spec:
  "f \<in> EXCLUSION_MINUS2_FIELDS \<Longrightarrow> \<exists>spec. FIELD_SPECS f = Some spec \<and> allow_minus2 spec"
  unfolding EXCLUSION_MINUS2_FIELDS_def FIELD_SPECS_def FIELD_SPECS_items_def spec0_def
  by (elim insertE emptyE) simp_all

lemma validate_field_minus2:
  assumes "f \<in> EXCLUSION_MINUS2_FIELDS" and "strip v = ''-2''"
  shows "validate_field today f v rt = []"
proof -
  from minus2_spec [OF assms(1)] obtain spec where "FIELD_SPECS f = Some spec" "allow_minus2 spec"
    by blast
  with assms(2) show ?thesis
    by (simp add: validate_field_def Let_def)
qed

lemma date_rules_codes:
  "(c, m) \<in> set (date_rules today f v) \<Longrightarrow> c \<in> {''DATE_FORMAT'', ''DATE_RANGE''}"
  unfolding date_rules_def
  by (cases "parse_date v"; cases "fst (parse_date v)") (auto split: if_splits)

lemma value_rules_codes:
  "(c, m) \<in> set (value_rules spec v) \<Longrightarrow>
   c \<in> {''VALUE'', ''PATTERN'', ''LENGTH'', ''MIN_LENGTH'', ''MAX_LENGTH''}"
  unfolding value_rules_def set_append Un_iff
  by (elim disjE) (auto split: option.splits if_splits)

lemma validate_field_codes:
  assumes "(c, m) \<in> set (validate_field today f v rt)"
  shows "c \<in> {''MISSING'', ''DATE_FORMAT'', ''DATE_RANGE'', ''VALUE'', ''PATTERN'', ''LENGTH'',
        ''MIN_LENGTH'', ''MAX_LENGTH''}"
proof (cases "FIELD_SPECS f")
  case None
  with assms show ?thesis by (simp add: validate_field_def Let_def)
next
  case (Some spec)
  from assms Some consider "c = ''MISSING''" | "(c, m) \<in> set (date_rules today f (strip v))"
    | "(c, m) \<in> set (value_rules spec (strip v))"
    by (auto simp: validate_field_def Let_def split: if_splits)
  then show ?thesis
  proof cases
    case 1 then show ?thesis by simp
  next
    case 2 from date_rules_codes [OF 2] show ?thesis by auto
  next
    case 3 from value_rules_codes [OF 3] show ?thesis by auto
  qed
qed


lemma group_rule_props:
  "e \<in> set (group_rule row n) \<Longrightarrow>
   row_number e = n \<and> error_code e = ''GROUP_RULE'' \<and> field e = ''LearnerIdentifierGroup''"
  by (auto simp: group_rule_def mk_error_def split: if_splits)

lemma mandatory_rule_props:
  "e \<in> set (mandatory_rule row n rt) \<Longrightarrow>
   row_number e = n \<and> error_code e = ''MISSING'' \<and> rt \<in> {''Result'', ''Amendment''} \<and>
   field e \<in> {''FirstEntryDate'', ''AwardDate'', ''QualificationGrade''}"
  by (auto simp: mandatory_rule_def mk_error_def split: if_splits)

lemma entry_rule_props:
  "e \<in> set (entry_rule row n rt) \<Longrightarrow>
   row_number e = n \<and> error_code e = ''ENTRY_RULE'' \<and> rt = ''Entry'' \<and>
   field e \<in> {''FirstEntryDate'', ''AwardDate'', ''QualificationGrade''}"
  by (auto simp: entry_rule_def mk_error_def Let_def split: if_splits)

lemma result_rule_props:
  "e \<in> set (result_rule today row n rt) \<Longrightarrow>
   row_number e = n \<and> rt \<in> {''Result'', ''Amendment''} \<and>
   error_code e \<in> {''SENTINEL_NOT_ALLOWED'', ''DATE_FUTURE'', ''DATE_ORDER'', ''RESULT_RULE''} \<and>
   field e \<in> {''FirstEntryDate'', ''AwardDate'', ''QualificationGrade''}"
  unfolding result_rule_def Let_def
  by (cases "fst (parse_date (strip (get_str row ''FirstEntryDate'')))";
      cases "fst (parse_date (strip (get_str row ''AwardDate'')))";
      cases "fst (parse_date (strip (get_str row ''RegistrationDate'')))")
     (auto simp: mk_error_def split: if_splits)

lemma loop_body_eq:
  "loop_body today st row =
     (if is_blank_row row then st\<lparr>row_idx := row_idx st + 1\<rparr>
      else \<lparr>errors = errors st @ structural_errors (row_idx st + 1) (seen_rows st) row @
                     content_errors today (row_idx st + 1) row,
            seen_rows = insert (fit_row row) (seen_rows st),
            row_idx = row_idx st + 1\<rparr>)"
  by (simp add: loop_body_def Let_def is_blank_row_def structural_errors_def content_errors_def
      row_dict_of_def cell_def insert_absorb)

lemma foldl_loop:
  "foldl (loop_body today) st rows =
     \<lparr>errors = errors st @ rows_errors today (row_idx st) (seen_rows st) rows,
      seen_rows = seen_after (seen_rows st) rows,
      row_idx = row_idx st + length rows\<rparr>"
proof (induction rows arbitrary: st)
  case Nil
  show ?case by simp
next
  case (Cons row rows)
  define st' where "st' = loop_body today st row"
  have "foldl (loop_body today) st (row # rows) = foldl (loop_body today) st' rows"
    by (simp add: st'_def)
  also have "\<dots> = \<lparr>errors = errors st' @ rows_errors today (row_idx st') (seen_rows st') rows,
      seen_rows = seen_after (seen_rows st') rows,
      row_idx = row_idx st' + length rows\<rparr>"
    by (rule Cons.IH)
  also have "\<dots> = \<lparr>errors = errors st @ rows_errors today (row_idx st) (seen_rows st) (row # rows),
      seen_rows = seen_after (seen_rows st) (row # rows),
      row_idx = row_idx st + length (row # rows)\<rparr>"
    unfolding st'_def by (cases "is_blank_row row") (simp_all add: loop_body_eq)
  finally show ?case .
qed

lemma validate_csv_stream_Cons:
  "validate_csv_stream today (h # rows) =
     header_errors (normalize_header h) @ rows_errors today 1 {} rows"
  by (simp add: validate_csv_stream_def foldl_loop)

lemma structural_errors_props:
  "e \<in> set (structural_errors idx seen row) \<Longrightarrow>
   row_number e = idx \<and> field e = ''*ROW*'' \<and> error_code e \<in> {''COLUMN_COUNT'', ''DUPLICATE_ROW''}"
  by (auto simp: structural_errors_def mk_error_def split: if_splits)

lemma record_level_props:
  assumes "e \<in> set (validate_record_level today row n)"
  shows "row_number e = n"
    and "error_code e \<in> {''GROUP_RULE'', ''MISSING'', ''ENTRY_RULE'', ''SENTINEL_NOT_ALLOWED'',
           ''DATE_FUTURE'', ''DATE_ORDER'', ''RESULT_RULE''}"
    and "field e \<in> {''LearnerIdentifierGroup'', ''FirstEntryDate'', ''AwardDate'',
           ''QualificationGrade''}"
proof -
  let ?rt = "strip (get_str row ''RecordType'')"
  from assms consider "e \<in> set (group_rule row n)" | "e \<in> set (mandatory_rule row n ?rt)"
    | "e \<in> set (entry_rule row n ?rt)" | "e \<in> set (result_rule today row n ?rt)"
    by (auto simp: validate_record_level_def Let_def)
  then have "row_number e = n \<and>
     error_code e \<in> {''GROUP_RULE'', ''MISSING'', ''ENTRY_RULE'', ''SENTINEL_NOT_ALLOWED'',
           ''DATE_FUTURE'', ''DATE_ORDER'', ''RESULT_RULE''} \<and>
     field e \<in> {''LearnerIdentifierGroup'', ''FirstEntryDate'', ''AwardDate'',
           ''QualificationGrade''}"
  proof cases
    case 1 from group_rule_props [OF 1] show ?thesis by simp
  next
    case 2 from mandatory_rule_props [OF 2] show ?thesis by blast
  next
    case 3 from entry_rule_props [OF 3] show ?thesis by blast
  next
    case 4 from result_rule_props [OF 4] show ?thesis by blast
  qed
  then show "row_number e = n"
    and "error_code e \<in> {''GROUP_RULE'', ''MISSING'', ''ENTRY_RULE'', ''SENTINEL_NOT_ALLOWED'',
           ''DATE_FUTURE'', ''DATE_ORDER'', ''RESULT_RULE''}"
    and "field e \<in> {''LearnerIdentifierGroup'', ''FirstEntryDate'', ''AwardDate'',
           ''QualificationGrade''}"
    by blast+
qed

lemma field_errors_props:
  assumes "e \<in> set (field_errors today idx rd rt col)"
  shows "row_number e = idx" and "field e = col" and "err_value e = get_str rd col"
    and "\<exists>m. (error_code e, m) \<in> set (validate_field today col (get_str rd col) rt)"
  using assms by (auto simp: field_errors_def Let_def mk_error_def)

lemma content_errors_cases:
  assumes "e \<in> set (content_errors today idx row)"
  obtains col where "col \<in> set EXPECTED_COLUMNS"
      and "e \<in> set (field_errors today idx (row_dict_of row) (cell row ''RecordType'') col)"
  | "e \<in> set (validate_record_level today (row_dict_of row) idx)"
  using assms by (auto simp: content_errors_def)

lemma content_errors_row_number:
  assumes "e \<in> set (content_errors today idx row)"
  shows "row_number e = idx"
  using assms
  by (rule content_errors_cases) (simp_all add: field_errors_props(1) record_level_props(1))

lemma rows_errors_row_number:
  "e \<in> set (rows_errors today idx seen rows) \<Longrightarrow>
   idx < row_number e \<and> row_number e \<le> idx + length rows"
proof (induction rows arbitrary: idx seen)
  case Nil
  then show ?case by simp
next
  case (Cons row rows)
  show ?case
  proof (cases "is_blank_row row")
    case True
    with Cons.prems have "e \<in> set (rows_errors today (idx + 1) seen rows)" by simp
    from Cons.IH [OF this] show ?thesis by simp
  next
    case False
    with Cons.prems consider "e \<in> set (structural_errors (idx + 1) seen row)"
      | "e \<in> set (content_errors today (idx + 1) row)"
      | "e \<in> set (rows_errors today (idx + 1) (insert (fit_row row) seen) rows)"
      by auto
    then show ?thesis
    proof cases
      case 1 from structural_errors_props [OF 1] show ?thesis by simp
    next
      case 2 from content_errors_row_number [OF 2] show ?thesis by simp
    next
      case 3 from Cons.IH [OF 3] show ?thesis by simp
    qed
  qed
qed

lemma errors_at_append: "errors_at n (xs @ ys) = errors_at n xs @ errors_at n ys"
  by (simp add: errors_at_def)

lemma errors_at_all: "(\<And>e. e \<in> set xs \<Longrightarrow> row_number e = n) \<Longrightarrow> errors_at n xs = xs"
  by (simp add: errors_at_def)

lemma errors_at_none: "(\<And>e. e \<in> set xs \<Longrightarrow> row_number e \<noteq> n) \<Longrightarrow> errors_at n xs = []"
  by (simp add: errors_at_def)

lemma errors_at_structural:
  "errors_at n (structural_errors idx seen row) = (if n = idx then structural_errors idx seen row else [])"
  using structural_errors_props [of _ idx seen row]
  by (auto intro!: errors_at_all errors_at_none)

lemma errors_at_content:
  "errors_at n (content_errors today idx row) = (if n = idx then content_errors today idx row else [])"
  using content_errors_row_number [of _ today idx row]
  by (auto intro!: errors_at_all errors_at_none)

lemma errors_at_rows_before:
  assumes "n \<le> idx"
  shows "errors_at n (rows_errors today idx seen rows) = []"
proof (rule errors_at_none)
  fix e assume "e \<in> set (rows_errors today idx seen rows)"
  from rows_errors_row_number [OF this] assms show "row_number e \<noteq> n" by simp
qed

lemma rows_errors_at:
  "k < length rows \<Longrightarrow>
   errors_at (idx + k + 1) (rows_errors today idx seen rows) =
     (if is_blank_row (rows ! k) then []
      else structural_errors (idx + k + 1) (seen_after seen (take k rows)) (rows ! k) @
           content_errors today (idx + k + 1) (rows ! k))"
proof (induction rows arbitrary: idx seen k)
  case Nil
  then show ?case by simp
next
  case (Cons row rows)
  show ?case
  proof (cases k)
    case 0
    then show ?thesis
      by (simp add: errors_at_append errors_at_structural errors_at_content errors_at_rows_before)
  next
    case (Suc j)
    with Cons.prems have j: "j < length rows" by simp
    from Cons.IH [OF j, of "idx + 1"] Suc show ?thesis
      by (simp add: errors_at_append errors_at_structural errors_at_content)
  qed
qed

lemma header_errors_props:
  "e \<in> set (header_errors h) \<Longrightarrow>
   row_number e = 1 \<and> field e = ''*HEADER*'' \<and> error_code e = ''HEADER_MISMATCH''"
  by (auto simp: header_errors_def mk_error_def split: if_splits)

lemma stream_errors_at:
  assumes "k < length rows"
  shows "errors_at (k + 2) (validate_csv_stream today (h # rows)) =
     (if is_blank_row (rows ! k) then []
      else structural_errors (k + 2) (seen_after {} (take k rows)) (rows ! k) @
           content_errors today (k + 2) (rows ! k))"
proof -
  have "errors_at (k + 2) (header_errors (normalize_header h)) = []"
    using header_errors_props [of _ "normalize_header h"] by (intro errors_at_none) auto
  with rows_errors_at [OF assms, of 1 today "{}"] show ?thesis
    by (simp add: validate_csv_stream_Cons errors_at_append)
qed

lemma errors_at_cases:
  assumes "k < length rows" and "e \<in> set (errors_at (k + 2) (validate_csv_stream today (h # rows)))"
  obtains "\<not> is_blank_row (rows ! k)"
      and "e \<in> set (structural_errors (k + 2) (seen_after {} (take k rows)) (rows ! k))"
  | col where "\<not> is_blank_row (rows ! k)" and "col \<in> set EXPECTED_COLUMNS"
      and "e \<in> set (field_errors today (k + 2) (row_dict_of (rows ! k))
                      (cell (rows ! k) ''RecordType'') col)"
  | "\<not> is_blank_row (rows ! k)"
      and "e \<in> set (validate_record_level today (row_dict_of (rows ! k)) (k + 2))"
proof (cases "is_blank_row (rows ! k)")
  case True
  with assms(2) stream_errors_at [OF assms(1), of today h] show ?thesis by simp
next
  case False
  with assms(2) stream_errors_at [OF assms(1), of today h]
  have "e \<in> set (structural_errors (k + 2) (seen_after {} (take k rows)) (rows ! k)) \<or>
      e \<in> set (content_errors today (k + 2) (rows ! k))"
    by simp
  then show ?thesis
  proof
    assume "e \<in> set (structural_errors (k + 2) (seen_after {} (take k rows)) (rows ! k))"
    with False that(1) show ?thesis by blast
  next
    assume c: "e \<in> set (content_errors today (k + 2) (rows ! k))"
    show ?thesis
    proof (rule content_errors_cases [OF c])
      fix col
      assume "col \<in> set EXPECTED_COLUMNS"
        and "e \<in> set (field_errors today (k + 2) (row_dict_of (rows ! k))
               (cell (rows ! k) ''RecordType'') col)"
      with False that(2) show thesis by blast
    next
      assume "e \<in> set (validate_record_level today (row_dict_of (rows ! k)) (k + 2))"
      with False that(3) show thesis by blast
    qed
  qed
qed

lemma spec_RegistrationDate:
  "FIELD_SPECS ''RegistrationDate'' =
     Some ((spec0 ''RegistrationDate'') \<lparr>mandatory := True, typeF := Some ''date''\<rparr>)"
  by (simp add: FIELD_SPECS_def FIELD_SPECS_items_def)

lemma spec_DOB: "FIELD_SPECS ''DOB'' = Some ((spec0 ''DOB'') \<lparr>typeF := Some ''date''\<rparr>)"
  by (simp add: FIELD_SPECS_def FIELD_SPECS_items_def)

lemma strip_Nil: "strip [] = []"
  by (simp add: strip_def strip_with_def)

lemma sentinel_not_blank: "v \<in> SENTINEL_DATES \<Longrightarrow> v \<noteq> [] \<and> v \<noteq> ''-2''"
  by (auto simp: SENTINEL_DATES_def)

lemma parse_date_sentinel: "strip v \<in> SENTINEL_DATES \<Longrightarrow> parse_date v = (None, True)"
  using sentinel_not_blank [of "strip v"] by (simp add: parse_date_def Let_def)

lemma validate_field_sentinel_date:
  assumes "FIELD_SPECS f = Some spec" and "typeF spec = Some ''date''"
    and "strip v \<in> SENTINEL_DATES"
  shows "validate_field today f v rt = []"
proof -
  from assms(3) have "parse_date (strip v) = (None, True)"
    by (simp add: parse_date_strip parse_date_sentinel)
  with assms sentinel_not_blank [OF assms(3)] show ?thesis
    by (simp add: validate_field_def Let_def date_rules_def)
qed

lemma fit_row_cells: "s \<in> set (fit_row row) \<Longrightarrow> s \<in> set row \<or> s = []"
  by (auto simp: fit_row_def dest: in_set_takeD split: if_splits)

lemma cell_nonblank:
  assumes "cell row c \<noteq> []"
  shows "\<not> is_blank_row row"
proof -
  from assms obtain s where s: "row_dict_of row c = Some s" and ne: "strip s \<noteq> []"
    by (auto simp: cell_def get_str_def strip_Nil split: option.splits)
  from s have "s \<in> set (fit_row row)"
    unfolding row_dict_of_def by (auto dest!: map_of_SomeD in_set_zipE)
  with fit_row_cells [of s row] ne have "s \<in> set row"
    by (auto simp: strip_Nil)
  with ne show ?thesis by (auto simp: is_blank_row_def)
qed

lemma filter_none: "(\<And>e. e \<in> set xs \<Longrightarrow> \<not> P e) \<Longrightarrow> filter P xs = []"
  by (simp add: filter_empty_conv)

lemma filter_concat_none:
  "(\<And>x e. x \<in> set xs \<Longrightarrow> e \<in> set (f x) \<Longrightarrow> \<not> P e) \<Longrightarrow> filter P (concat (map f xs)) = []"
  by (auto simp: filter_empty_conv)

lemma stream_row_errors:
  assumes "k < length rows" and "\<not> is_blank_row (rows ! k)"
  shows "errors_at (k + 2) (validate_csv_stream today (h # rows)) =
     structural_errors (k + 2) (seen_after {} (take k rows)) (rows ! k) @
     concat (map (field_errors today (k + 2) (row_dict_of (rows ! k))
                    (cell (rows ! k) ''RecordType'')) EXPECTED_COLUMNS) @
     validate_record_level today (row_dict_of (rows ! k)) (k + 2)"
  using stream_errors_at [OF assms(1), of today h] assms(2)
  by (simp add: content_errors_def)

lemma record_level_eq:
  "validate_record_level today rd n =
     group_rule rd n @ mandatory_rule rd n (strip (get_str rd ''RecordType'')) @
     entry_rule rd n (strip (get_str rd ''RecordType'')) @
     result_rule today rd n (strip (get_str rd ''RecordType''))"
  by (simp add: validate_record_level_def Let_def)

lemma normalize_header_expected: "normalize_header EXPECTED_COLUMNS = EXPECTED_COLUMNS"
  by code_simp

lemma validate_csv_stream_expected:
  "validate_csv_stream today (EXPECTED_COLUMNS # rows) = rows_errors today 1 {} rows"
  by (simp add: validate_csv_stream_Cons normalize_header_expected header_errors_def)


















section \<open>The date parser\<close>

lemma strptime_valid: "strptime v fmt = Some d \<Longrightarrow> valid_date d"
  by (auto simp: strptime_def date_of_def split: date_format.splits option.splits if_splits prod.splits)

lemma try_formats_cases:
  "try_formats v DATE_FORMATS =
     (case strptime v FMT_ISO of Some d \<Rightarrow> (Some d, False)
      | None \<Rightarrow> (case strptime v FMT_DMY of Some d \<Rightarrow> (Some d, False) | None \<Rightarrow> (None, False)))"
  by (simp add: DATE_FORMATS_def split: option.splits)

lemma validate_field_DOB:
  assumes "parse_date v = (Some d, False)"
  shows "validate_field today ''DOB'' v rt =
     (if date_less d (mk_date 1900 1 1) then [(''DATE_RANGE'', MSG_before_1900 (strip v))] else []) @
     (if age_years today d < 5 \<or> age_years today d > 80
        then [(''DATE_RANGE'', MSG_age_range (strip v))] else [])"
proof -
  from assms have nb: "strip v \<noteq> []"
    by (auto simp: parse_date_def Let_def)
  from assms have p: "parse_date (strip v) = (Some d, False)"
    by (simp add: parse_date_strip)
  show ?thesis
    using nb by (simp add: validate_field_def Let_def spec_DOB spec0_def date_rules_def p)
qed

lemma days_before_month_le:
  assumes "1 \<le> m" and "m \<le> 12" and "dd \<le> days_in_month y m"
  shows "days_before_month y m + int dd \<le> (if is_leap y then 366 else 365)"
proof -
  from assms(1,2) have "m = 1 \<or> m = 2 \<or> m = 3 \<or> m = 4 \<or> m = 5 \<or> m = 6 \<or> m = 7 \<or> m = 8 \<or>
      m = 9 \<or> m = 10 \<or> m = 11 \<or> m = 12" by arith
  then show ?thesis
    using assms(3)
    by (elim disjE)
       (simp_all add: days_before_month_def days_in_month_def upt_rec split: if_splits)
qed

lemma toordinal_before_1900:
  assumes "valid_date d" and "date_less d (mk_date 1900 1 1)"
  shows "toordinal d \<le> 693595"
proof -
  from assms have y: "year d \<le> 1899"
    by (auto simp: date_less_def mk_date_def valid_date_def)
  from assms(1) have y1: "1 \<le> year d" by (simp add: valid_date_def)
  from assms(1) have md: "days_before_month (year d) (month d) + int (day d) \<le>
      (if is_leap (year d) then 366 else 365)"
    by (intro days_before_month_le) (simp_all add: valid_date_def)
  show ?thesis
  proof (cases "year d = 1899")
    case True
    have "\<not> is_leap 1899" by (simp add: is_leap_def)
    moreover have "days_before_year 1899 = 693230"
      by (simp add: days_before_year_def)
    ultimately show ?thesis using md True by (simp add: toordinal_def)
  next
    case False
    define p where "p = int (year d) - 1"
    from False y y1 have p: "0 \<le> p" "p \<le> 1897" by (simp_all add: p_def)
    from p have "p div 4 \<le> 1897 div 4" by (intro zdiv_mono1) simp_all
    moreover from p have "p div 400 \<le> 1897 div 400" by (intro zdiv_mono1) simp_all
    moreover from p have "0 \<le> p div 100" by (simp add: pos_imp_zdiv_nonneg_iff)
    ultimately have "days_before_year (year d) \<le> 365 * 1897 + 474 + 4"
      using p unfolding days_before_year_def Let_def p_def [symmetric] by simp
    moreover from md have "days_before_month (year d) (month d) + int (day d) \<le> 366"
      by (simp split: if_splits)
    ultimately show ?thesis by (simp add: toordinal_def)
  qed
qed

lemma parse_date_valid: "parse_date v = (Some d, b) \<Longrightarrow> valid_date d"
  by (auto simp: parse_date_def Let_def try_formats_cases
      split: if_splits option.splits dest: strptime_valid)

lemma before_1900_old:
  assumes "valid_date d" and "date_less d (mk_date 1900 1 1)"
    and "toordinal (mk_date 1980 1 2) \<le> toordinal today"
  shows "age_years today d > 80"
proof -
  have "toordinal (mk_date 1980 1 2) = 722816"
    by code_simp
  with assms(3) toordinal_before_1900 [OF assms(1,2)]
  have "29221 \<le> toordinal today - toordinal d" by simp
  then have "(29221 :: real) \<le> real_of_int (toordinal today - toordinal d)"
    by linarith
  then show ?thesis by (simp add: age_years_def field_simps)
qed

text \<open>
  C2, as stated, fails: the blank input and an unparsable input give the same pair
  \<open>(None, False)\<close>, so the "no date" outcome cannot be told from "unparsable". The empty
  string is blank; \<open>abc\<close> is not blank, is not a sentinel and matches neither format.
\<close>

theorem parse_date_blank_counterexample:
  "strip '''' = [] \<and> strip ''abc'' \<noteq> [] \<and> strip ''abc'' \<notin> SENTINEL_DATES \<and>
   strptime (strip ''abc'') FMT_ISO = None \<and> strptime (strip ''abc'') FMT_DMY = None \<and>
   parse_date '''' = parse_date ''abc''"
  by code_simp

text \<open>
  C2, amended: \<open>parse_date\<close> trims its input and returns \<open>(None, False)\<close> when nothing
  is left, the sentinel marker \<open>(None, True)\<close> when what is left is one of the two
  sentinel spellings, the date of the first of the two formats that parses it otherwise,
  and \<open>(None, False)\<close> when neither format parses it. So the result is one of three
  pairs, a calendar date \<open>(Some d, False)\<close>, the sentinel marker, or \<open>(None, False)\<close>;
  a blank input and an unparsable input give the same pair; and the sentinel marker is
  returned exactly for the two sentinel spellings. Strings are over the code points up to
  U+00FF.
\<close>

theorem parse_date_outcomes:
  "parse_date v =
     (if strip v = [] then (None, False)
      else if strip v \<in> SENTINEL_DATES then (None, True)
      else (case strptime (strip v) FMT_ISO of
              Some d \<Rightarrow> (Some d, False)
            | None \<Rightarrow> (case strptime (strip v) FMT_DMY of
                         Some d \<Rightarrow> (Some d, False)
                       | None \<Rightarrow> (None, False)))) \<and>
   ((\<exists>d. parse_date v = (Some d, False) \<and> valid_date d) \<or> parse_date v = (None, True) \<or>
      parse_date v = (None, False)) \<and>
   (strip v = [] \<longrightarrow> parse_date v = (None, False)) \<and>
   (strip v \<noteq> [] \<and> strip v \<notin> SENTINEL_DATES \<and> strptime (strip v) FMT_ISO = None \<and>
      strptime (strip v) FMT_DMY = None \<longrightarrow> parse_date v = (None, False)) \<and>
   (parse_date v = (None, True) \<longleftrightarrow> strip v \<in> SENTINEL_DATES)"
proof -
  have eq: "parse_date v =
     (if strip v = [] then (None, False)
      else if strip v \<in> SENTINEL_DATES then (None, True)
      else (case strptime (strip v) FMT_ISO of
              Some d \<Rightarrow> (Some d, False)
            | None \<Rightarrow> (case strptime (strip v) FMT_DMY of
                         Some d \<Rightarrow> (Some d, False)
                       | None \<Rightarrow> (None, False))))"
    by (simp add: parse_date_def Let_def try_formats_cases)
  have rest: "((\<exists>d. parse_date v = (Some d, False) \<and> valid_date d) \<or> parse_date v = (None, True) \<or>
      parse_date v = (None, False)) \<and>
   (strip v = [] \<longrightarrow> parse_date v = (None, False)) \<and>
   (strip v \<noteq> [] \<and> strip v \<notin> SENTINEL_DATES \<and> strptime (strip v) FMT_ISO = None \<and>
      strptime (strip v) FMT_DMY = None \<longrightarrow> parse_date v = (None, False)) \<and>
   (parse_date v = (None, True) \<longleftrightarrow> strip v \<in> SENTINEL_DATES)"
    by (auto simp: parse_date_def Let_def try_formats_cases SENTINEL_DATES_def
        split: option.splits dest: strptime_valid)
  from eq rest show ?thesis by (rule conjI)
qed

text \<open>
  Instances: a blank input, an unparsable one, a sentinel spelling, and a date in each of
  the two formats.
\<close>

theorem parse_date_outcomes_witness:
  "parse_date ''  '' = (None, False) \<and> parse_date ''12.03.2020'' = (None, False) \<and>
   parse_date '' 31/12/2999'' = (None, True) \<and>
   parse_date ''2020-01-05'' = (Some (mk_date 2020 1 5), False) \<and>
   parse_date ''05/01/2020'' = (Some (mk_date 2020 1 5), False)"
proof -
  have h1: "strip ''  '' = []"
    by code_simp
  have h2: "strip ''12.03.2020'' \<noteq> [] \<and> strip ''12.03.2020'' \<notin> SENTINEL_DATES \<and>
      strptime (strip ''12.03.2020'') FMT_ISO = None \<and>
      strptime (strip ''12.03.2020'') FMT_DMY = None"
    by code_simp
  have h3: "strip '' 31/12/2999'' \<in> SENTINEL_DATES"
    by code_simp
  have h4: "strip ''2020-01-05'' \<noteq> [] \<and> strip ''2020-01-05'' \<notin> SENTINEL_DATES \<and>
      strptime (strip ''2020-01-05'') FMT_ISO = Some (mk_date 2020 1 5)"
    by code_simp
  have h5: "strip ''05/01/2020'' \<noteq> [] \<and> strip ''05/01/2020'' \<notin> SENTINEL_DATES \<and>
      strptime (strip ''05/01/2020'') FMT_ISO = None \<and>
      strptime (strip ''05/01/2020'') FMT_DMY = Some (mk_date 2020 1 5)"
    by code_simp
  from h1 parse_date_outcomes [of "''  ''"] have "parse_date ''  '' = (None, False)"
    by blast
  moreover from h2 parse_date_outcomes [of "''12.03.2020''"]
  have "parse_date ''12.03.2020'' = (None, False)"
    by blast
  moreover from h3 parse_date_outcomes [of "'' 31/12/2999''"]
  have "parse_date '' 31/12/2999'' = (None, True)"
    by blast
  moreover from h4 parse_date_outcomes [of "''2020-01-05''"]
  have "parse_date ''2020-01-05'' = (Some (mk_date 2020 1 5), False)"
    by simp
  moreover from h5 parse_date_outcomes [of "''05/01/2020''"]
  have "parse_date ''05/01/2020'' = (Some (mk_date 2020 1 5), False)"
    by simp
  ultimately show ?thesis
    by simp
qed

section \<open>The value \<open>-2\<close> on the fields that permit it\<close>

text \<open>
  C1: for each of the twelve fields of \<open>EXCLUSION_MINUS2_FIELDS\<close>, every record type and
  every value that trims to \<open>-2\<close>, \<open>validate_field\<close> returns no error at all: the test
  for \<open>-2\<close> comes before the allowed-value, pattern and length rules. In the output of
  the pipeline, the data row \<open>k\<close> (row number \<open>k + 2\<close>) whose cell for such a field trims
  to \<open>-2\<close> has no error on that field with code \<open>VALUE\<close>, \<open>PATTERN\<close>, \<open>LENGTH\<close>,
  \<open>MIN_LENGTH\<close> or \<open>MAX_LENGTH\<close>.
\<close>

theorem minus2_never_value_error:
  assumes "f \<in> EXCLUSION_MINUS2_FIELDS"
  shows "(strip v = ''-2'' \<longrightarrow> validate_field today f v rt = []) \<and>
         (k < length rows \<and> cell (rows ! k) f = ''-2'' \<longrightarrow>
            filter (\<lambda>e. field e = f \<and>
                      error_code e \<in> {''VALUE'', ''PATTERN'', ''LENGTH'', ''MIN_LENGTH'', ''MAX_LENGTH''})
              (errors_at (k + 2) (validate_csv_stream today (h # rows))) = [])"
proof (intro conjI impI)
  assume "strip v = ''-2''"
  with assms show "validate_field today f v rt = []" by (rule validate_field_minus2)
next
  assume a: "k < length rows \<and> cell (rows ! k) f = ''-2''"
  let ?codes = "{''VALUE'', ''PATTERN'', ''LENGTH'', ''MIN_LENGTH'', ''MAX_LENGTH''}"
  have "\<not> (field e = f \<and> error_code e \<in> ?codes)"
    if e: "e \<in> set (errors_at (k + 2) (validate_csv_stream today (h # rows)))" for e
  proof -
    from a have k: "k < length rows" by simp
    from k e show ?thesis
    proof (cases rule: errors_at_cases)
      case 1
      from structural_errors_props [OF 1(2)] show ?thesis by auto
    next
      case (2 col)
      show ?thesis
      proof
        assume "field e = f \<and> error_code e \<in> ?codes"
        with field_errors_props(2) [OF 2(3)] have "col = f" by simp
        with field_errors_props(4) [OF 2(3)] obtain m where
          "(error_code e, m) \<in> set (validate_field today f (get_str (row_dict_of (rows ! k)) f)
              (cell (rows ! k) ''RecordType''))" by blast
        moreover from a have "strip (get_str (row_dict_of (rows ! k)) f) = ''-2''"
          by (simp add: cell_def)
        ultimately show False using validate_field_minus2 [OF assms] by simp
      qed
    next
      case 3
      from record_level_props(2) [OF 3(2)] show ?thesis by auto
    qed
  qed
  then show "filter (\<lambda>e. field e = f \<and> error_code e \<in> ?codes)
      (errors_at (k + 2) (validate_csv_stream today (h # rows))) = []"
    by (simp add: filter_empty_conv)
qed

text \<open>
  An instance: a short row \<open>Entry, -2\<close> under the expected header, whose second cell is
  the \<open>UniqueCandidateIdentifier\<close>.
\<close>

theorem minus2_never_value_error_witness:
  "validate_field (mk_date 2025 6 1) ''UniqueCandidateIdentifier'' '' -2 '' ''Entry'' = [] \<and>
   filter (\<lambda>e. field e = ''UniqueCandidateIdentifier'' \<and>
             error_code e \<in> {''VALUE'', ''PATTERN'', ''LENGTH'', ''MIN_LENGTH'', ''MAX_LENGTH''})
     (errors_at 2 (validate_csv_stream (mk_date 2025 6 1)
        [EXPECTED_COLUMNS, [''Entry'', '' -2 '']])) = []"
proof -
  have h1: "''UniqueCandidateIdentifier'' \<in> EXCLUSION_MINUS2_FIELDS"
    by code_simp
  have h2: "strip '' -2 '' = ''-2''"
    by code_simp
  have h3: "(0::nat) < length [[''Entry'', '' -2 '']] \<and>
      cell ([[''Entry'', '' -2 '']] ! 0) ''UniqueCandidateIdentifier'' = ''-2''"
    by code_simp
  from h2 h3 minus2_never_value_error [OF h1, of "'' -2 ''" "mk_date 2025 6 1" "''Entry''" 0
    "[[''Entry'', '' -2 '']]" EXPECTED_COLUMNS]
  show ?thesis by (simp add: numeral_2_eq_2)
qed

section \<open>The grade of an Entry record\<close>

text \<open>
  C3: take the data row \<open>k\<close> (row number \<open>k + 2\<close>) whose trimmed \<open>RecordType\<close> is \<open>Entry\<close>
  and whose trimmed \<open>QualificationGrade\<close> is not \<open>-2\<close>. The errors of the output for that
  row with code \<open>ENTRY_RULE\<close> and field \<open>QualificationGrade\<close> are exactly one error, and
  it carries the trimmed \<open>QualificationGrade\<close>. If moreover the field rules accept the
  cell (\<open>validate_field\<close> returns no error for it), this is the only error of the row on
  the field \<open>QualificationGrade\<close>.
\<close>

theorem entry_grade_one_error:
  assumes "k < length rows"
    and "cell (rows ! k) ''RecordType'' = ''Entry''"
    and "cell (rows ! k) ''QualificationGrade'' \<noteq> ''-2''"
  shows "filter (\<lambda>e. error_code e = ''ENTRY_RULE'' \<and> field e = ''QualificationGrade'')
           (errors_at (k + 2) (validate_csv_stream today (h # rows))) =
         [mk_error (k + 2) ''QualificationGrade'' ''ENTRY_RULE'' MSG_entry_grade
            (cell (rows ! k) ''QualificationGrade'')] \<and>
         (validate_field today ''QualificationGrade''
            (get_str (row_dict_of (rows ! k)) ''QualificationGrade'') ''Entry'' = [] \<longrightarrow>
          filter (\<lambda>e. field e = ''QualificationGrade'')
            (errors_at (k + 2) (validate_csv_stream today (h # rows))) =
          [mk_error (k + 2) ''QualificationGrade'' ''ENTRY_RULE'' MSG_entry_grade
             (cell (rows ! k) ''QualificationGrade'')])"
proof -
  let ?row = "rows ! k"
  let ?rd = "row_dict_of ?row"
  define n where "n = k + 2"
  let ?err = "mk_error n ''QualificationGrade'' ''ENTRY_RULE'' MSG_entry_grade
      (cell ?row ''QualificationGrade'')"
  let ?P = "\<lambda>e. error_code e = ''ENTRY_RULE'' \<and> field e = ''QualificationGrade''"
  let ?Q = "\<lambda>e. field e = ''QualificationGrade''"
  from assms(2) have nb: "\<not> is_blank_row ?row"
    by (intro cell_nonblank [of ?row "''RecordType''"]) simp
  from assms(2) have rt: "strip (get_str ?rd ''RecordType'') = ''Entry''"
    by (simp add: cell_def)
  from assms(3) have qg: "strip (get_str ?rd ''QualificationGrade'') \<noteq> ''-2''"
    by (simp add: cell_def)
  have str: "filter ?Q (structural_errors n seen ?row) = []" for seen
    by (rule filter_none) (use structural_errors_props in fastforce)
  have grp: "filter ?Q (group_rule ?rd n) = []"
    by (rule filter_none) (use group_rule_props in fastforce)
  have man: "mandatory_rule ?rd n ''Entry'' = []"
    by (simp add: mandatory_rule_def)
  have res: "result_rule today ?rd n ''Entry'' = []"
    by (simp add: result_rule_def)
  have ent: "filter ?Q (entry_rule ?rd n ''Entry'') = [?err]"
    using qg by (simp add: entry_rule_def Let_def mk_error_def cell_def)
  have rec: "filter ?Q (validate_record_level today ?rd n) = [?err]"
    by (simp add: record_level_eq rt grp man res ent)
  have PQ: "filter ?P xs = filter (\<lambda>e. error_code e = ''ENTRY_RULE'') (filter ?Q xs)"
    for xs :: "ValidationError list"
    by (induction xs) auto
  have fld_other: "filter ?Q (field_errors today n ?rd ''Entry'' col) = []"
    if "col \<noteq> ''QualificationGrade''" for col
    by (rule filter_none) (use that field_errors_props(2) in fastforce)
  have fld_code: "filter ?P (field_errors today n ?rd ''Entry'' col) = []" for col
  proof (rule filter_none)
    fix e assume "e \<in> set (field_errors today n ?rd ''Entry'' col)"
    from field_errors_props(4) [OF this] obtain m where
      "(error_code e, m) \<in> set (validate_field today col (get_str ?rd col) ''Entry'')" by blast
    from validate_field_codes [OF this] show "\<not> ?P e" by auto
  qed
  have out: "errors_at n (validate_csv_stream today (h # rows)) =
     structural_errors n (seen_after {} (take k rows)) ?row @
     concat (map (field_errors today n ?rd ''Entry'') EXPECTED_COLUMNS) @
     validate_record_level today ?rd n"
    using stream_row_errors [OF assms(1) nb, of today h] assms(2) by (simp add: n_def)
  have P_str: "filter ?P (structural_errors n seen ?row) = []" for seen
    unfolding PQ str by simp
  have P_rec: "filter ?P (validate_record_level today ?rd n) = [?err]"
    unfolding PQ rec by (simp add: mk_error_def)
  have P_fld: "filter ?P (concat (map (field_errors today n ?rd ''Entry'') EXPECTED_COLUMNS)) = []"
    by (simp add: filter_concat fld_code)
  have first: "filter ?P (errors_at n (validate_csv_stream today (h # rows))) = [?err]"
    unfolding out by (simp only: filter_append P_str P_fld P_rec append_Nil)
  have second: "filter ?Q (errors_at n (validate_csv_stream today (h # rows))) = [?err]"
    if wf: "validate_field today ''QualificationGrade'' (get_str ?rd ''QualificationGrade'')
        ''Entry'' = []"
  proof -
    have "filter ?Q (field_errors today n ?rd ''Entry'' col) = []" for col
    proof (cases "col = ''QualificationGrade''")
      case True
      with wf show ?thesis by (simp add: field_errors_def Let_def)
    next
      case False
      then show ?thesis by (rule fld_other)
    qed
    then have "filter ?Q (concat (map (field_errors today n ?rd ''Entry'') EXPECTED_COLUMNS)) = []"
      by (simp add: filter_concat)
    then show ?thesis
      unfolding out by (simp only: filter_append str rec append_Nil)
  qed
  from first second show ?thesis unfolding n_def by blast
qed

text \<open>An instance: an \<open>Entry\<close> row of 32 cells whose \<open>QualificationGrade\<close> is \<open>A\<close>.\<close>

theorem entry_grade_one_error_witness:
  "filter (\<lambda>e. error_code e = ''ENTRY_RULE'' \<and> field e = ''QualificationGrade'')
     (errors_at 2 (validate_csv_stream (mk_date 2025 6 1)
        [EXPECTED_COLUMNS, ''Entry'' # replicate 30 [] @ ['' A '']])) =
   [mk_error 2 ''QualificationGrade'' ''ENTRY_RULE'' MSG_entry_grade ''A''] \<and>
   filter (\<lambda>e. field e = ''QualificationGrade'')
     (errors_at 2 (validate_csv_stream (mk_date 2025 6 1)
        [EXPECTED_COLUMNS, ''Entry'' # replicate 30 [] @ ['' A '']])) =
   [mk_error 2 ''QualificationGrade'' ''ENTRY_RULE'' MSG_entry_grade ''A'']"
proof -
  let ?rows = "[''Entry'' # replicate 30 [] @ ['' A '']]"
  have h1: "(0::nat) < length ?rows"
    by simp
  have h2: "cell (?rows ! 0) ''RecordType'' = ''Entry''"
    by code_simp
  have h3: "cell (?rows ! 0) ''QualificationGrade'' \<noteq> ''-2''"
    by code_simp
  have h4: "cell (?rows ! 0) ''QualificationGrade'' = ''A''"
    by code_simp
  have h5: "validate_field (mk_date 2025 6 1) ''QualificationGrade''
      (get_str (row_dict_of (?rows ! 0)) ''QualificationGrade'') ''Entry'' = []"
    by code_simp
  from h4 h5 entry_grade_one_error [OF h1 h2 h3, of "mk_date 2025 6 1" EXPECTED_COLUMNS]
  show ?thesis by (simp add: numeral_2_eq_2)
qed

section \<open>An award date before the first entry date\<close>

text \<open>
  C4: take the data row \<open>k\<close> (row number \<open>k + 2\<close>) whose trimmed \<open>RecordType\<close> is \<open>Result\<close>
  or \<open>Amendment\<close>. If \<open>parse_date\<close> gives a calendar date for its \<open>AwardDate\<close> and for its
  \<open>FirstEntryDate\<close>, and the award date is strictly before the first entry date, then the
  output has, for that row, the \<open>DATE_ORDER\<close> error on the field \<open>AwardDate\<close>, carrying
  the trimmed \<open>AwardDate\<close>.
\<close>

theorem award_before_first_entry:
  assumes "k < length rows"
    and "cell (rows ! k) ''RecordType'' \<in> {''Result'', ''Amendment''}"
    and "parse_date (cell (rows ! k) ''AwardDate'') = (Some aw, False)"
    and "parse_date (cell (rows ! k) ''FirstEntryDate'') = (Some fe, False)"
    and "date_less aw fe"
  shows "mk_error (k + 2) ''AwardDate'' ''DATE_ORDER'' MSG_award_before_first_entry
           (cell (rows ! k) ''AwardDate'')
         \<in> set (errors_at (k + 2) (validate_csv_stream today (h # rows)))"
proof -
  let ?row = "rows ! k"
  let ?rd = "row_dict_of ?row"
  define n where "n = k + 2"
  let ?err = "mk_error n ''AwardDate'' ''DATE_ORDER'' MSG_award_before_first_entry
      (cell ?row ''AwardDate'')"
  from assms(2) have "cell ?row ''RecordType'' \<noteq> []" by auto
  then have nb: "\<not> is_blank_row ?row" by (rule cell_nonblank)
  from assms(2) have rt: "strip (get_str ?rd ''RecordType'') \<in> {''Result'', ''Amendment''}"
    by (simp add: cell_def)
  from assms(3) have a: "fst (parse_date (strip (get_str ?rd ''AwardDate''))) = Some aw"
    by (simp add: cell_def)
  from assms(4) have f: "fst (parse_date (strip (get_str ?rd ''FirstEntryDate''))) = Some fe"
    by (simp add: cell_def)
  have "?err \<in> set (result_rule today ?rd n (strip (get_str ?rd ''RecordType'')))"
    using rt assms(5) unfolding result_rule_def Let_def a f
    by (simp add: cell_def)
  then have "?err \<in> set (validate_record_level today ?rd n)"
    by (simp add: record_level_eq)
  then have "?err \<in> set (errors_at n (validate_csv_stream today (h # rows)))"
    using stream_row_errors [OF assms(1) nb, of today h] by (simp add: n_def)
  then show ?thesis by (simp add: n_def)
qed

text \<open>
  An instance: a \<open>Result\<close> row whose \<open>FirstEntryDate\<close> is 1 May 2020 and whose
  \<open>AwardDate\<close> is 1 April 2020, in the two formats.
\<close>

theorem award_before_first_entry_witness:
  "mk_error 2 ''AwardDate'' ''DATE_ORDER'' MSG_award_before_first_entry ''01/04/2020''
   \<in> set (errors_at 2 (validate_csv_stream (mk_date 2025 6 1)
        [EXPECTED_COLUMNS, ''Result'' # replicate 28 [] @ [''2020-05-01'', '' 01/04/2020'']]))"
proof -
  let ?rows = "[''Result'' # replicate 28 [] @ [''2020-05-01'', '' 01/04/2020'']]"
  have h1: "(0::nat) < length ?rows"
    by simp
  have h2: "cell (?rows ! 0) ''RecordType'' \<in> {''Result'', ''Amendment''}"
    by code_simp
  have h3: "parse_date (cell (?rows ! 0) ''AwardDate'') = (Some (mk_date 2020 4 1), False)"
    by code_simp
  have h4: "parse_date (cell (?rows ! 0) ''FirstEntryDate'') = (Some (mk_date 2020 5 1), False)"
    by code_simp
  have h5: "date_less (mk_date 2020 4 1) (mk_date 2020 5 1)"
    by code_simp
  have h6: "cell (?rows ! 0) ''AwardDate'' = ''01/04/2020''"
    by code_simp
  from h6 award_before_first_entry [OF h1 h2 h3 h4 h5, of "mk_date 2025 6 1" EXPECTED_COLUMNS]
  show ?thesis by (simp add: numeral_2_eq_2)
qed

section \<open>A sentinel registration date\<close>

text \<open>
  C10: a \<open>RegistrationDate\<close> that trims to one of the two sentinel spellings causes no
  error, whatever the record type. \<open>validate_field\<close> returns no error for it (no
  \<open>DATE_FORMAT\<close>, no range check). In the output of the pipeline the data row \<open>k\<close> (row
  number \<open>k + 2\<close>) with such a cell has no error on the field \<open>RegistrationDate\<close>. And the
  record rules, also for \<open>Result\<close> and \<open>Amendment\<close>, give for a row with a sentinel
  \<open>RegistrationDate\<close> the errors they give for the same row with an empty
  \<open>RegistrationDate\<close>: the sentinel rule, the future-date rule and the order rules never
  look at a sentinel \<open>RegistrationDate\<close>.
\<close>

theorem sentinel_registration_date_accepted:
  "(strip v \<in> SENTINEL_DATES \<longrightarrow> validate_field today ''RegistrationDate'' v rt = []) \<and>
   (k < length rows \<and> cell (rows ! k) ''RegistrationDate'' \<in> SENTINEL_DATES \<longrightarrow>
      filter (\<lambda>e. field e = ''RegistrationDate'')
        (errors_at (k + 2) (validate_csv_stream today (h # rows))) = []) \<and>
   (strip (get_str rd ''RegistrationDate'') \<in> SENTINEL_DATES \<longrightarrow>
      validate_record_level today rd n =
      validate_record_level today (rd(''RegistrationDate'' \<mapsto> [])) n)"
proof (intro conjI impI)
  assume "strip v \<in> SENTINEL_DATES"
  then show "validate_field today ''RegistrationDate'' v rt = []"
    by (intro validate_field_sentinel_date [OF spec_RegistrationDate]) simp_all
next
  assume a: "k < length rows \<and> cell (rows ! k) ''RegistrationDate'' \<in> SENTINEL_DATES"
  then have k: "k < length rows" by simp
  have "field e \<noteq> ''RegistrationDate''"
    if e: "e \<in> set (errors_at (k + 2) (validate_csv_stream today (h # rows)))" for e
    using k e
  proof (cases rule: errors_at_cases)
    case 1
    from structural_errors_props [OF 1(2)] show ?thesis by simp
  next
    case (2 col)
    show ?thesis
    proof
      assume "field e = ''RegistrationDate''"
      with field_errors_props(2) [OF 2(3)] have "col = ''RegistrationDate''" by simp
      with field_errors_props(4) [OF 2(3)] obtain m where
        "(error_code e, m) \<in> set (validate_field today ''RegistrationDate''
            (get_str (row_dict_of (rows ! k)) ''RegistrationDate'')
            (cell (rows ! k) ''RecordType''))" by blast
      moreover from a have "strip (get_str (row_dict_of (rows ! k)) ''RegistrationDate'')
          \<in> SENTINEL_DATES"
        by (simp add: cell_def)
      ultimately show False
        using validate_field_sentinel_date [OF spec_RegistrationDate] by simp
    qed
  next
    case 3
    from record_level_props(3) [OF 3(2)] show ?thesis by auto
  qed
  then show "filter (\<lambda>e. field e = ''RegistrationDate'')
      (errors_at (k + 2) (validate_csv_stream today (h # rows))) = []"
    by (simp add: filter_empty_conv)
next
  assume s: "strip (get_str rd ''RegistrationDate'') \<in> SENTINEL_DATES"
  let ?rd = "rd(''RegistrationDate'' \<mapsto> [])"
  have other: "get_str ?rd f = get_str rd f" if "f \<noteq> ''RegistrationDate''" for f
    using that by (simp add: get_str_def)
  have reg: "fst (parse_date (strip (get_str rd ''RegistrationDate''))) = None"
    using s by (simp add: parse_date_strip parse_date_sentinel)
  have reg': "fst (parse_date (strip (get_str ?rd ''RegistrationDate''))) = None"
    by (simp add: get_str_def strip_Nil parse_date_def)
  have g: "group_rule ?rd n = group_rule rd n"
    by (simp add: group_rule_def id_fields_def other)
  have m: "mandatory_rule ?rd n t = mandatory_rule rd n t" for t
    by (simp add: mandatory_rule_def other)
  have e: "entry_rule ?rd n t = entry_rule rd n t" for t
    by (simp add: entry_rule_def other)
  have r: "result_rule today ?rd n t = result_rule today rd n t" for t
    unfolding result_rule_def Let_def reg reg' other [of "''FirstEntryDate''", simplified]
      other [of "''AwardDate''", simplified] other [of "''QualificationGrade''", simplified]
    by (rule refl)
  show "validate_record_level today rd n = validate_record_level today ?rd n"
    by (simp add: record_level_eq g m e r other)
qed

text \<open>
  An instance: a \<open>Result\<close> row whose \<open>RegistrationDate\<close> cell is the sentinel
  \<open>31/12/2999\<close> between spaces.
\<close>

theorem sentinel_registration_date_accepted_witness:
  "validate_field (mk_date 2025 6 1) ''RegistrationDate'' '' 31/12/2999 '' ''Result'' = [] \<and>
   filter (\<lambda>e. field e = ''RegistrationDate'')
     (errors_at 2 (validate_csv_stream (mk_date 2025 6 1)
        [EXPECTED_COLUMNS, ''Result'' # replicate 27 [] @ ['' 31/12/2999 '']])) = [] \<and>
   validate_record_level (mk_date 2025 6 1)
     [''RecordType'' \<mapsto> ''Result'', ''RegistrationDate'' \<mapsto> ''2999-12-31''] 2 =
   validate_record_level (mk_date 2025 6 1)
     ([''RecordType'' \<mapsto> ''Result'', ''RegistrationDate'' \<mapsto> ''2999-12-31'']
        (''RegistrationDate'' \<mapsto> [])) 2"
proof -
  have h1: "strip '' 31/12/2999 '' \<in> SENTINEL_DATES"
    by code_simp
  have h2: "(0::nat) < length [''Result'' # replicate 27 [] @ ['' 31/12/2999 '']] \<and>
      cell ([''Result'' # replicate 27 [] @ ['' 31/12/2999 '']] ! 0) ''RegistrationDate''
        \<in> SENTINEL_DATES"
    by code_simp
  have h3: "strip (get_str [''RecordType'' \<mapsto> ''Result'', ''RegistrationDate'' \<mapsto> ''2999-12-31'']
      ''RegistrationDate'') \<in> SENTINEL_DATES"
    by code_simp
  from h1 h2 h3 sentinel_registration_date_accepted [of "'' 31/12/2999 ''" "mk_date 2025 6 1"
    "''Result''" 0 "[''Result'' # replicate 27 [] @ ['' 31/12/2999 '']]" EXPECTED_COLUMNS
    "[''RecordType'' \<mapsto> ''Result'', ''RegistrationDate'' \<mapsto> ''2999-12-31'']" 2]
  show ?thesis by (simp add: numeral_2_eq_2)
qed

section \<open>Blank data rows\<close>



section \<open>Row numbers and the header\<close>



section \<open>The age rule of the date of birth\<close>

text \<open>
  C7: let the \<open>DOB\<close> cell parse as the calendar date \<open>d\<close>. The field validator emits the
  age error, code \<open>DATE_RANGE\<close>, exactly when the age \<open>(today - d) / 365.25\<close> is below 5
  or above 80. It emits some \<open>DATE_RANGE\<close> error exactly when \<open>d\<close> is before 1 January
  1900 or the age is below 5 or above 80; so a date of birth on or after 1 January 1900
  with an age in \<open>[5, 80]\<close> gets no error at all. From 2 January 1980 on, a date before
  1900 is more than 80 years old, and then a \<open>DATE_RANGE\<close> error is emitted exactly when
  the age is below 5 or above 80.
\<close>

theorem dob_date_range:
  assumes "parse_date v = (Some d, False)"
  shows "((''DATE_RANGE'', MSG_age_range (strip v)) \<in> set (validate_field today ''DOB'' v rt)
            \<longleftrightarrow> age_years today d < 5 \<or> age_years today d > 80) \<and>
         ((\<exists>m. (''DATE_RANGE'', m) \<in> set (validate_field today ''DOB'' v rt))
            \<longleftrightarrow> date_less d (mk_date 1900 1 1) \<or> age_years today d < 5 \<or> age_years today d > 80) \<and>
         (\<not> date_less d (mk_date 1900 1 1) \<and> 5 \<le> age_years today d \<and> age_years today d \<le> 80
            \<longrightarrow> validate_field today ''DOB'' v rt = []) \<and>
         (toordinal (mk_date 1980 1 2) \<le> toordinal today \<longrightarrow>
            ((\<exists>m. (''DATE_RANGE'', m) \<in> set (validate_field today ''DOB'' v rt))
               \<longleftrightarrow> age_years today d < 5 \<or> age_years today d > 80))"
proof -
  note vf = validate_field_DOB [OF assms, of today rt]
  have a: "(''DATE_RANGE'', MSG_age_range (strip v)) \<in> set (validate_field today ''DOB'' v rt)
      \<longleftrightarrow> age_years today d < 5 \<or> age_years today d > 80"
    unfolding vf by auto
  have b: "(\<exists>m. (''DATE_RANGE'', m) \<in> set (validate_field today ''DOB'' v rt))
      \<longleftrightarrow> date_less d (mk_date 1900 1 1) \<or> age_years today d < 5 \<or> age_years today d > 80"
    unfolding vf by auto
  have c: "\<not> date_less d (mk_date 1900 1 1) \<and> 5 \<le> age_years today d \<and> age_years today d \<le> 80
      \<longrightarrow> validate_field today ''DOB'' v rt = []"
    unfolding vf by auto
  have d: "(\<exists>m. (''DATE_RANGE'', m) \<in> set (validate_field today ''DOB'' v rt))
      \<longleftrightarrow> age_years today d < 5 \<or> age_years today d > 80"
    if clock: "toordinal (mk_date 1980 1 2) \<le> toordinal today"
  proof -
    from assms have valid: "valid_date d" by (rule parse_date_valid)
    have "age_years today d > 80" if "date_less d (mk_date 1900 1 1)"
      using valid that clock by (rule before_1900_old)
    with b show ?thesis by blast
  qed
  from a b c d show ?thesis by blast
qed

text \<open>
  Instances, on 1 June 2025: a child of three years, born 1 January 2022, gets the age
  error; a date of birth of 1 January 2000 gets none.
\<close>

theorem dob_date_range_witness:
  "(''DATE_RANGE'', MSG_age_range ''2022-01-01'')
     \<in> set (validate_field (mk_date 2025 6 1) ''DOB'' '' 2022-01-01'' ''Entry'') \<and>
   validate_field (mk_date 2025 6 1) ''DOB'' ''01/01/2000'' ''Entry'' = []"
proof -
  let ?today = "mk_date 2025 6 1"
  have t: "toordinal ?today = 739403" by code_simp
  have p1: "parse_date '' 2022-01-01'' = (Some (mk_date 2022 1 1), False)" by code_simp
  have s1: "strip '' 2022-01-01'' = ''2022-01-01''" by code_simp
  have o1: "toordinal (mk_date 2022 1 1) = 738156" by code_simp
  have a1: "age_years ?today (mk_date 2022 1 1) < 5"
    unfolding age_years_def t o1 by simp
  have p2: "parse_date ''01/01/2000'' = (Some (mk_date 2000 1 1), False)" by code_simp
  have o2: "toordinal (mk_date 2000 1 1) = 730120" by code_simp
  have a2: "\<not> date_less (mk_date 2000 1 1) (mk_date 1900 1 1) \<and>
      5 \<le> age_years ?today (mk_date 2000 1 1) \<and> age_years ?today (mk_date 2000 1 1) \<le> 80"
    unfolding age_years_def t o2 by (simp add: date_less_def mk_date_def)
  from a1 s1 dob_date_range [OF p1, of ?today "''Entry''"]
  have "(''DATE_RANGE'', MSG_age_range ''2022-01-01'')
     \<in> set (validate_field ?today ''DOB'' '' 2022-01-01'' ''Entry'')"
    by simp
  moreover from a2 dob_date_range [OF p2, of ?today "''Entry''"]
  have "validate_field ?today ''DOB'' ''01/01/2000'' ''Entry'' = []"
    by blast
  ultimately show ?thesis by blast
qed

end
